theory Spec2Isabelle
  imports Complex_Main
begin

section \<open>UQpy sample methods: a shallow embedding\<close>

text \<open>
  The theory follows \<^verbatim>\<open>src/UQpy/SampleMethods.py\<close> and \<^verbatim>\<open>src/UQpy/Distributions.py\<close>.
  Floats are idealised as reals. Every draw of the pseudo-random source is an explicit
  argument of the function that consumes it. A Python exception is a value \<open>Inl e\<close>.
  Counts (dimension, nsamples, jump, nburn, strata) are naturals. The identity test
  \<^verbatim>\<open>is\<close> on a string is read as equality of strings, as it behaves in CPython on the
  interned literals \<^verbatim>\<open>'MH'\<close>, \<^verbatim>\<open>'MMH'\<close> and \<^verbatim>\<open>'Stretch'\<close>.
\<close>

subsection \<open>Python values\<close>

datatype error =
    NotImplementedError
  | ValueError
  | TypeError
  | IndexError
  | UnboundLocalError
  | ZeroDivisionError
  | AttributeError
  | SystemExit

text \<open>A value that is either a string or a list of strings (a name, or a list of names).\<close>

datatype pyval = PyStr string | PyList "string list"

text \<open>A value that is either one number or a list of numbers.\<close>

datatype pynum = Num real | NumList "real list"

text \<open>A numpy array of floats with one or two axes.\<close>

datatype ndarray = Arr1 "real list" | Arr2 "real list list"

text \<open>\<^verbatim>\<open>len(a)\<close>, which is also \<^verbatim>\<open>a.shape[0]\<close>.\<close>

fun len :: "ndarray \<Rightarrow> nat" where
  "len (Arr1 xs) = length xs"
| "len (Arr2 rows) = length rows"

text \<open>
  The right-hand side of \<^verbatim>\<open>samples[k, :] = a\<close> for a row of \<open>d\<close> entries: numpy broadcasts
  \<open>a\<close> to the shape \<open>(d,)\<close>, dropping a leading axis of length one, or raises ValueError.
\<close>

definition fit_row :: "nat \<Rightarrow> real list \<Rightarrow> error + real list" where
  "fit_row d xs =
     (if length xs = d then Inr xs
      else if length xs = 1 then Inr (replicate d (hd xs))
      else Inl ValueError)"

fun broadcast_row :: "nat \<Rightarrow> ndarray \<Rightarrow> error + real list" where
  "broadcast_row d (Arr1 xs) = fit_row d xs"
| "broadcast_row d (Arr2 [xs]) = fit_row d xs"
| "broadcast_row d (Arr2 rows) = Inl ValueError"

text \<open>Sequencing of steps that may raise.\<close>

definition and_then :: "error + 'a \<Rightarrow> ('a \<Rightarrow> error + 'b) \<Rightarrow> error + 'b" where
  "and_then m f = (case m of Inl e \<Rightarrow> Inl e | Inr x \<Rightarrow> f x)"

text \<open>A \<^verbatim>\<open>for\<close> loop over a list of indices; the first exception ends it.\<close>

fun for_loop :: "nat list \<Rightarrow> (nat \<Rightarrow> 's \<Rightarrow> error + 's) \<Rightarrow> 's \<Rightarrow> error + 's" where
  "for_loop [] body s = Inr s"
| "for_loop (i # rest) body s = and_then (body i s) (for_loop rest body)"

text \<open>A function applied to the entries of a list in order; the first exception ends it.\<close>

fun each :: "('a \<Rightarrow> error + 'b) \<Rightarrow> 'a list \<Rightarrow> error + 'b list" where
  "each f [] = Inr []"
| "each f (x # xs) = and_then (f x) (\<lambda>y. and_then (each f xs) (\<lambda>ys. Inr (y # ys)))"

text \<open>Indexing and item assignment on lists and on the two-axis buffer, with IndexError.\<close>

definition getitem :: "'a list \<Rightarrow> nat \<Rightarrow> error + 'a" where
  "getitem xs i = (if i < length xs then Inr (xs ! i) else Inl IndexError)"

definition setitem :: "'a list \<Rightarrow> nat \<Rightarrow> 'a \<Rightarrow> error + 'a list" where
  "setitem xs i v = (if i < length xs then Inr (xs[i := v]) else Inl IndexError)"

definition getitem2 :: "real list list \<Rightarrow> nat \<Rightarrow> nat \<Rightarrow> error + real" where
  "getitem2 a i j = and_then (getitem a i) (\<lambda>row. getitem row j)"

definition setitem2 :: "real list list \<Rightarrow> nat \<Rightarrow> nat \<Rightarrow> real \<Rightarrow> error + real list list" where
  "setitem2 a i j v =
     and_then (getitem a i) (\<lambda>row. and_then (setitem row j v) (\<lambda>row'. setitem a i row'))"

fun names_getitem :: "pyval \<Rightarrow> nat \<Rightarrow> error + string" where
  "names_getitem (PyList l) i = getitem l i"
| "names_getitem (PyStr s) i = and_then (getitem s i) (\<lambda>ch. Inr [ch])"

text \<open>\<^verbatim>\<open>np.zeros([n, d])\<close>\<close>

definition zeros :: "nat \<Rightarrow> nat \<Rightarrow> real list list" where
  "zeros n d = replicate n (replicate d 0)"

text \<open>\<^verbatim>\<open>normal(loc, scale)\<close> and \<^verbatim>\<open>uniform(low, high)\<close> as functions of the variate.\<close>

definition np_normal :: "real \<Rightarrow> real \<Rightarrow> real \<Rightarrow> real" where
  "np_normal z loc scale = loc + scale * z"

definition np_uniform :: "real \<Rightarrow> real \<Rightarrow> real \<Rightarrow> real" where
  "np_uniform u low high = low + (high - low) * u"

subsection \<open>Distributions: the inverse cumulative distribution functions\<close>

text \<open>
  What \<^verbatim>\<open>inv_cdf\<close> depends on outside the repository: the quantile functions of
  \<^verbatim>\<open>scipy.stats\<close>, by the name of the family, its arguments and the probability, and the
  module \<^verbatim>\<open>custom_dist\<close> of the working directory: \<open>None\<close> when there is no file
  \<^verbatim>\<open>custom_dist.py\<close>, else the functions it defines by name.
\<close>

type_synonym icdf = "real \<Rightarrow> real list \<Rightarrow> error + real"

record env =
  ppf :: "string \<Rightarrow> real list \<Rightarrow> real \<Rightarrow> real"
  custom_dist :: "(string \<Rightarrow> icdf option) option"

text \<open>
  \<^verbatim>\<open>def f(x, params): return stats.family.ppf(x, params[0], ..., params[k-1])\<close>; a shorter
  list of parameters raises IndexError.
\<close>

definition builtin_icdf :: "env \<Rightarrow> string \<Rightarrow> nat \<Rightarrow> icdf" where
  "builtin_icdf e family k x params =
     (if length params < k then Inl IndexError else Inr (ppf e family (take k params) x))"

text \<open>The chain of tests on one name (lines 157 to 207), in the order of the source.\<close>

definition resolve_icdf :: "env \<Rightarrow> string \<Rightarrow> error + icdf" where
  "resolve_icdf e name =
     (if name = ''Uniform'' then Inr (builtin_icdf e ''uniform'' 2)
      else if name = ''Normal'' then Inr (builtin_icdf e ''norm'' 2)
      else if name = ''Lognormal'' then Inr (builtin_icdf e ''lognorm'' 2)
      else if name = ''Weibull'' then Inr (builtin_icdf e ''weibull_min'' 2)
      else if name = ''Beta'' then Inr (builtin_icdf e ''weibull_min'' 4)
      else if name = ''Exponential'' then Inr (builtin_icdf e ''expon'' 2)
      else if name = ''Gamma'' then Inr (builtin_icdf e ''gamma'' 3)
      else
        (case custom_dist e of
           None \<Rightarrow> Inl NotImplementedError
         | Some table \<Rightarrow>
             (case table name of None \<Rightarrow> Inl AttributeError | Some f \<Rightarrow> Inr f)))"

text \<open>
  The values the callers pass to \<^verbatim>\<open>inv_cdf\<close>: an array of floats, names (a string or a
  list of strings), or a list of parameter lists. \<^verbatim>\<open>inv_cdf\<close> returns its argument, with
  the strings among its entries replaced by functions.
\<close>

datatype pyarg = Array "real list list" | Names pyval | Params "real list list"

datatype resolved = Functions "icdf list" | Same pyarg

text \<open>
  \<^verbatim>\<open>inv_cdf(dist)\<close>. The loop runs over \<^verbatim>\<open>range(len(dist))\<close> and looks at the entries that
  are strings. The entries of a string are its characters, each a string of length one: none
  is the name of a built-in family, so the first one is looked up in \<^verbatim>\<open>custom_dist\<close>; if it
  is found, the assignment \<^verbatim>\<open>dist[i] = ...\<close> to a string raises TypeError. The rows of an
  array and the lists of parameters are not strings.
\<close>

fun inv_cdf :: "env \<Rightarrow> pyarg \<Rightarrow> error + resolved" where
  "inv_cdf e (Names (PyList names)) =
     and_then (each (resolve_icdf e) names) (\<lambda>fs. Inr (Functions fs))"
| "inv_cdf e (Names (PyStr [])) = Inr (Same (Names (PyStr [])))"
| "inv_cdf e (Names (PyStr (ch # s))) = and_then (resolve_icdf e [ch]) (\<lambda>f. Inl TypeError)"
| "inv_cdf e (Array a) = Inr (Same (Array a))"
| "inv_cdf e (Params p) = Inr (Same (Params p))"

text \<open>
  A call of \<^verbatim>\<open>inv_cdf\<close> with the given positional arguments: the function has the one
  parameter \<^verbatim>\<open>dist\<close>, and Python raises TypeError for any other number of arguments.
\<close>

definition call_inv_cdf :: "env \<Rightarrow> pyarg list \<Rightarrow> error + resolved" where
  "call_inv_cdf e args = (case args of [arg] \<Rightarrow> inv_cdf e arg | _ \<Rightarrow> Inl TypeError)"

text \<open>
  A call \<^verbatim>\<open>f(x, params)\<close> of what \<^verbatim>\<open>inv_cdf\<close> returned: a list, a string and an array are
  not callable.
\<close>

fun call_resolved :: "resolved \<Rightarrow> real \<Rightarrow> real list \<Rightarrow> error + real" where
  "call_resolved (Functions fs) x params = Inl TypeError"
| "call_resolved (Same v) x params = Inl TypeError"

text \<open>
  The options \<^verbatim>\<open>dist_type\<close> and \<^verbatim>\<open>dist_params\<close> brought to the dimension, as
  \<^verbatim>\<open>init_mcs\<close>, \<^verbatim>\<open>init_lhs\<close> and \<^verbatim>\<open>init_pss\<close> each do it.
\<close>

definition broadcast_dist ::
  "nat \<Rightarrow> string list \<Rightarrow> real list list \<Rightarrow> error + (string list \<times> real list list)" where
  "broadcast_dist d dist_type dist_params =
     (if length dist_type = 1 \<and> length dist_params = d then
        Inr (concat (replicate d dist_type), dist_params)
      else if length dist_params = 1 \<and> length dist_type = d then
        Inr (dist_type, concat (replicate d dist_params))
      else if length dist_params = 1 \<and> length dist_type = 1 then
        Inr (concat (replicate d dist_type), concat (replicate d dist_params))
      else if length dist_type \<noteq> length dist_params then Inl NotImplementedError
      else Inr (dist_type, dist_params))"

definition builtin_names :: "string list" where
  "builtin_names =
     [''Uniform'', ''Normal'', ''Lognormal'', ''Weibull'', ''Beta'', ''Exponential'', ''Gamma'']"

subsection \<open>Monte Carlo simulation\<close>

text \<open>The keyword arguments of \<^verbatim>\<open>MCS.__init__\<close> and the attributes after \<^verbatim>\<open>init_mcs\<close>.\<close>

record mcs_args =
  m_dimension :: "nat option"
  m_dist_type :: "string list option"
  m_dist_params :: "real list list option"
  m_nsamples :: "nat option"

record mcs =
  mcs_dimension :: nat
  mcs_dist_type :: "string list"
  mcs_dist_params :: "real list list"
  mcs_nsamples :: nat

text \<open>\<^verbatim>\<open>MCS.init_mcs\<close> (lines 72 to 107).\<close>

definition init_mcs :: "mcs_args \<Rightarrow> error + mcs" where
  "init_mcs a =
     (case m_nsamples a of
        None \<Rightarrow> Inl NotImplementedError
      | Some n \<Rightarrow>
      (case m_dist_type a of
        None \<Rightarrow> Inl NotImplementedError
      | Some dt \<Rightarrow>
          if list_ex (\<lambda>i. i \<notin> set builtin_names) dt then Inl NotImplementedError
          else
      (case m_dist_params a of
        None \<Rightarrow> Inl NotImplementedError
      | Some dp \<Rightarrow>
      (case m_dimension a of
        None \<Rightarrow>
          if length dt \<noteq> length dp then Inl NotImplementedError
          else Inr \<lparr> mcs_dimension = length dt, mcs_dist_type = dt, mcs_dist_params = dp,
                     mcs_nsamples = n \<rparr>
      | Some d \<Rightarrow>
          and_then (broadcast_dist d dt dp) (\<lambda>(dt', dp').
            Inr \<lparr> mcs_dimension = d, mcs_dist_type = dt', mcs_dist_params = dp',
                  mcs_nsamples = n \<rparr>)))))"

text \<open>\<^verbatim>\<open>np.random.rand(n, d)\<close>: the array of the draws \<open>u i j\<close>.\<close>

definition rand :: "(nat \<Rightarrow> nat \<Rightarrow> real) \<Rightarrow> nat \<Rightarrow> nat \<Rightarrow> real list list" where
  "rand u n d = map (\<lambda>i. map (\<lambda>j. u i j) [0..<d]) [0..<n]"

text \<open>
  \<^verbatim>\<open>MCS.run_mcs\<close> (lines 61 to 65): the draws, then the call of \<^verbatim>\<open>inv_cdf\<close> with three
  arguments, whose result is returned beside the draws.
\<close>

definition run_mcs :: "env \<Rightarrow> (nat \<Rightarrow> nat \<Rightarrow> real) \<Rightarrow> mcs \<Rightarrow> error + (real list list \<times> resolved)" where
  "run_mcs e u c =
     (let samples = rand u (mcs_nsamples c) (mcs_dimension c) in
      and_then (call_inv_cdf e [Array samples, Names (PyList (mcs_dist_type c)),
                  Params (mcs_dist_params c)]) (\<lambda>samples_u_to_x.
        Inr (samples, samples_u_to_x)))"

text \<open>\<^verbatim>\<open>MCS(...)\<close>: validation, then sampling.\<close>

definition MCS :: "env \<Rightarrow> (nat \<Rightarrow> nat \<Rightarrow> real) \<Rightarrow> mcs_args \<Rightarrow> error + (real list list \<times> resolved)" where
  "MCS e u a = and_then (init_mcs a) (run_mcs e u)"

text \<open>End-to-end scenario 1 of the specification.\<close>

definition scenario1 :: mcs_args where
  "scenario1 =
     \<lparr> m_dimension = Some 2, m_dist_type = Some [''Uniform'', ''Uniform''],
       m_dist_params = Some [[0, 1], [0, 1]], m_nsamples = Some 100 \<rparr>"

subsection \<open>Latin hypercube sampling\<close>

text \<open>
  The arguments of \<^verbatim>\<open>LHS.__init__\<close> (an omitted option holds its default: dimension 1,
  criterion \<^verbatim>\<open>'random'\<close>, metric \<^verbatim>\<open>'euclidean'\<close>, 100 iterations) and the attributes
  after \<^verbatim>\<open>init_lhs\<close>.
\<close>

record lhs_args =
  l_dimension :: "nat option"
  l_dist_type :: "string list option"
  l_dist_params :: "real list list option"
  l_lhs_criterion :: "string option"
  l_lhs_metric :: "string option"
  l_lhs_iter :: "nat option"
  l_nsamples :: "nat option"

record lhs =
  lhs_dimension :: nat
  lhs_dist_type :: "string list"
  lhs_dist_params :: "real list list"
  lhs_criterion :: string
  lhs_metric :: string
  lhs_iter :: nat
  lhs_nsamples :: nat

definition lhs_metrics :: "string list" where
  "lhs_metrics =
     [''braycurtis'', ''canberra'', ''chebyshev'', ''cityblock'', ''correlation'', ''cosine'',
      ''dice'', ''euclidean'', ''hamming'', ''jaccard'', ''kulsinski'', ''mahalanobis'',
      ''matching'', ''minkowski'', ''rogerstanimoto'', ''russellrao'', ''seuclidean'',
      ''sokalmichener'', ''sokalsneath'', ''sqeuclidean'']"

text \<open>\<^verbatim>\<open>LHS.init_lhs\<close> (lines 264 to 319).\<close>

definition init_lhs :: "lhs_args \<Rightarrow> error + lhs" where
  "init_lhs a =
     (case l_nsamples a of
        None \<Rightarrow> Inl NotImplementedError
      | Some n \<Rightarrow>
      (case l_dist_type a of
        None \<Rightarrow> Inl NotImplementedError
      | Some dt \<Rightarrow>
      (case l_dist_params a of
        None \<Rightarrow> Inl NotImplementedError
      | Some dp \<Rightarrow>
          and_then
            (case l_dimension a of
               None \<Rightarrow>
                 if length dt \<noteq> length dp then Inl NotImplementedError
                 else Inr (length dt, dt, dp)
             | Some d \<Rightarrow> and_then (broadcast_dist d dt dp) (\<lambda>(dt', dp'). Inr (d, dt', dp')))
            (\<lambda>(d, dt', dp').
          and_then
            (case l_lhs_criterion a of
               None \<Rightarrow> Inr ''random''
             | Some c \<Rightarrow>
                 if c \<in> set [''random'', ''centered'', ''maximin'', ''correlate''] then Inr c
                 else Inl NotImplementedError)
            (\<lambda>crit.
          and_then
            (case l_lhs_metric a of
               None \<Rightarrow> Inr ''euclidean''
             | Some m \<Rightarrow> if m \<in> set lhs_metrics then Inr m else Inl NotImplementedError)
            (\<lambda>metric.
              Inr \<lparr> lhs_dimension = d, lhs_dist_type = dt', lhs_dist_params = dp',
                    lhs_criterion = crit, lhs_metric = metric,
                    lhs_iter = (case l_lhs_iter a of None \<Rightarrow> 1000 | Some k \<Rightarrow> if k = 0 then 1000 else k),
                    lhs_nsamples = n \<rparr>))))))"

text \<open>
  The pseudo-random source of one LHS run, by the trial \<open>t\<close> (the call of \<^verbatim>\<open>_random\<close> or
  \<^verbatim>\<open>_centered\<close>): the uniform draws of \<^verbatim>\<open>np.random.rand\<close> by row and column, and for every
  column the permutation of \<^verbatim>\<open>range(nsamples)\<close> that \<^verbatim>\<open>np.random.permutation\<close> returns.
\<close>

record lhs_draws =
  unit01 :: "nat \<Rightarrow> nat \<Rightarrow> nat \<Rightarrow> real"
  order :: "nat \<Rightarrow> nat \<Rightarrow> nat list"

text \<open>\<^verbatim>\<open>np.linspace(0, 1, n + 1)\<close> and the bounds \<open>a\<close>, \<open>b\<close> of the bins (lines 182 to 184).\<close>

definition cut :: "nat \<Rightarrow> real list" where
  "cut n = map (\<lambda>k. real k / real n) [0..<Suc n]"

definition bins_a :: "nat \<Rightarrow> real list" where
  "bins_a n = take n (cut n)"

definition bins_b :: "nat \<Rightarrow> real list" where
  "bins_b n = drop 1 (take (n + 1) (cut n))"

text \<open>\<^verbatim>\<open>samples[:, j] = column\<close> on a buffer whose rows have an entry \<open>j\<close>.\<close>

definition set_column :: "real list list \<Rightarrow> nat \<Rightarrow> real list \<Rightarrow> real list list" where
  "set_column s j column = map (\<lambda>k. (s ! k)[j := column ! k]) [0..<length s]"

text \<open>
  \<^verbatim>\<open>LHS._random\<close> (lines 204 to 215) at trial \<open>t\<close>: one point in every bin and column, then
  for each column in turn the rows taken in the order of a permutation.
\<close>

definition lhs_random :: "lhs_draws \<Rightarrow> nat \<Rightarrow> nat \<Rightarrow> nat \<Rightarrow> real list list" where
  "lhs_random r t n d =
     (let a = bins_a n; b = bins_b n;
          samples = map (\<lambda>k. map (\<lambda>i. unit01 r t k i * (b ! k - a ! k) + a ! k) [0..<d]) [0..<n]
      in foldl (\<lambda>s j. set_column s j (map (\<lambda>k. s ! (order r t j ! k) ! j) [0..<n]))
           samples [0..<d])"

text \<open>
  \<^verbatim>\<open>LHS._centered\<close> (lines 217 to 225): every column is the centres of the bins in the
  order of a permutation.
\<close>

definition lhs_centered :: "lhs_draws \<Rightarrow> nat \<Rightarrow> nat \<Rightarrow> nat \<Rightarrow> real list list" where
  "lhs_centered r t n d =
     (let a = bins_a n; b = bins_b n;
          centers = map2 (\<lambda>x y. (x + y) / 2) a b
      in foldl (\<lambda>s i. set_column s i (map (\<lambda>k. centers ! (order r t i ! k)) [0..<n]))
           (zeros n d) [0..<d])"

text \<open>
  What \<^verbatim>\<open>_max_min\<close> and \<^verbatim>\<open>_correlate\<close> measure on a trial, outside the repository:
  \<^verbatim>\<open>np.min(pdist(samples_try, metric))\<close> and the largest absolute entry of the correlation
  matrix off its diagonal.
\<close>

record measures =
  min_pdist :: "string \<Rightarrow> real list list \<Rightarrow> error + real"
  max_abs_corr :: "real list list \<Rightarrow> error + real"

text \<open>
  \<^verbatim>\<open>LHS._max_min\<close> (lines 227 to 240) and \<^verbatim>\<open>LHS._correlate\<close> (lines 242 to 257): trial 0,
  then \<^verbatim>\<open>lhs_iter\<close> more, keeping the best; \<open>None\<close> is the bound \<^verbatim>\<open>np.inf\<close>.
\<close>

definition lhs_max_min :: "measures \<Rightarrow> lhs_draws \<Rightarrow> lhs \<Rightarrow> error + real list list" where
  "lhs_max_min ms r c =
     and_then
       (for_loop [1..<Suc (lhs_iter c)]
          (\<lambda>t (max_min_dist, samples).
             let samples_try = lhs_random r t (lhs_nsamples c) (lhs_dimension c) in
             and_then (min_pdist ms (lhs_metric c) samples_try) (\<lambda>m.
               Inr (if max_min_dist < m then (m, samples_try) else (max_min_dist, samples))))
          (0, lhs_random r 0 (lhs_nsamples c) (lhs_dimension c)))
       (\<lambda>(max_min_dist, samples). Inr samples)"

definition lhs_correlate :: "measures \<Rightarrow> lhs_draws \<Rightarrow> lhs \<Rightarrow> error + real list list" where
  "lhs_correlate ms r c =
     and_then
       (for_loop [1..<Suc (lhs_iter c)]
          (\<lambda>t (min_corr, samples).
             let samples_try = lhs_random r t (lhs_nsamples c) (lhs_dimension c) in
             and_then (max_abs_corr ms samples_try) (\<lambda>m.
               Inr (if (case min_corr of None \<Rightarrow> True | Some v \<Rightarrow> m < v)
                    then (Some m, samples_try) else (min_corr, samples))))
          (None, lhs_random r 0 (lhs_nsamples c) (lhs_dimension c)))
       (\<lambda>(min_corr, samples). Inr samples)"

text \<open>
  The entry \<open>(i, j)\<close> of the transformed array (lines 198 to 199): \<^verbatim>\<open>inv_cdf\<close> is called
  with the name \<^verbatim>\<open>self.dist_type[j]\<close>, a string, and its result is called as a function.
\<close>

definition lhs_transform ::
  "env \<Rightarrow> lhs \<Rightarrow> real list list \<Rightarrow> nat \<Rightarrow> nat \<Rightarrow> real list list \<Rightarrow> error + real list list" where
  "lhs_transform e c samples i j out =
     and_then (getitem (lhs_dist_type c) j) (\<lambda>name.
     and_then (call_inv_cdf e [Names (PyStr name)]) (\<lambda>icdf.
     and_then (getitem2 samples i j) (\<lambda>x.
     and_then (getitem (lhs_dist_params c) j) (\<lambda>params.
     and_then (call_resolved icdf x params) (\<lambda>v.
       setitem2 out i j v)))))"

text \<open>
  \<^verbatim>\<open>LHS.run_lhs\<close> (lines 180 to 202); \<^verbatim>\<open>samples.shape[1]\<close> is the length of the first row,
  or the dimension when there is no row.
\<close>

definition run_lhs ::
  "env \<Rightarrow> measures \<Rightarrow> lhs_draws \<Rightarrow> lhs \<Rightarrow> error + (real list list \<times> real list list)" where
  "run_lhs e ms r c =
     and_then
       (if lhs_criterion c = ''random'' then
          Inr (lhs_random r 0 (lhs_nsamples c) (lhs_dimension c))
        else if lhs_criterion c = ''centered'' then
          Inr (lhs_centered r 0 (lhs_nsamples c) (lhs_dimension c))
        else if lhs_criterion c = ''maximin'' then lhs_max_min ms r c
        else if lhs_criterion c = ''correlate'' then lhs_correlate ms r c
        else Inl UnboundLocalError)
       (\<lambda>samples.
     and_then
       (for_loop [0..<length samples]
          (\<lambda>i. for_loop [0..<(case samples of [] \<Rightarrow> lhs_dimension c | row # _ \<Rightarrow> length row)]
                  (lhs_transform e c samples i))
          (map (map (\<lambda>_. 0)) samples))
       (\<lambda>samples_u_to_x. Inr (samples, samples_u_to_x)))"

text \<open>\<^verbatim>\<open>LHS(...)\<close>: validation, then the design and its transformation.\<close>

definition LHS ::
  "env \<Rightarrow> measures \<Rightarrow> lhs_draws \<Rightarrow> lhs_args \<Rightarrow> error + (real list list \<times> real list list)" where
  "LHS e ms r a = and_then (init_lhs a) (run_lhs e ms r)"

text \<open>
  \<^verbatim>\<open>LHS(dimension=d, dist_type=['Uniform'], dist_params=[[0, 1]], lhs_criterion=crit,
  nsamples=n)\<close>
\<close>

definition lhs_uniform :: "string \<Rightarrow> nat \<Rightarrow> nat \<Rightarrow> lhs_args" where
  "lhs_uniform crit n d =
     \<lparr> l_dimension = Some d, l_dist_type = Some [''Uniform''], l_dist_params = Some [[0, 1]],
       l_lhs_criterion = Some crit, l_lhs_metric = Some ''euclidean'', l_lhs_iter = Some 100,
       l_nsamples = Some n \<rparr>"

text \<open>
  What the claim asks of a design of \<open>n\<close> rows in column \<open>j\<close>: every bin
  \<open>[k / n, (k + 1) / n)\<close> holds exactly one row.
\<close>

definition in_bin :: "nat \<Rightarrow> nat \<Rightarrow> real \<Rightarrow> bool" where
  "in_bin n k v \<longleftrightarrow> real k / real n \<le> v \<and> v < real (k + 1) / real n"

definition one_per_bin :: "nat \<Rightarrow> real list list \<Rightarrow> nat \<Rightarrow> bool" where
  "one_per_bin n s j \<longleftrightarrow>
     (\<forall>k<n. \<exists>i<n. in_bin n k (s ! i ! j) \<and> (\<forall>i'<n. in_bin n k (s ! i' ! j) \<longrightarrow> i' = i))"

text \<open>The contract of \<^verbatim>\<open>np.random.permutation(n)\<close> and of \<^verbatim>\<open>np.random.rand\<close>.\<close>

definition is_permutation :: "nat \<Rightarrow> nat list \<Rightarrow> bool" where
  "is_permutation n p \<longleftrightarrow> length p = n \<and> distinct p \<and> set p = {..<n}"

definition unit_draw :: "real \<Rightarrow> bool" where
  "unit_draw v \<longleftrightarrow> 0 \<le> v \<and> v < 1"

subsection \<open>Strata\<close>

text \<open>
  The columns of \<^verbatim>\<open>Strata.fullfact\<close> (lines 693 to 702), one for each factor: the loop
  carries \<^verbatim>\<open>level_repeat\<close> and \<^verbatim>\<open>range_repeat\<close>, and \<^verbatim>\<open>rng\<close> is the column of factor
  \<open>i\<close>. Floor division by a level 0 of the numpy integer \<^verbatim>\<open>range_repeat\<close> gives 0.
\<close>

fun fullfact_columns :: "nat list \<Rightarrow> nat \<Rightarrow> nat \<Rightarrow> nat list list" where
  "fullfact_columns [] level_repeat range_repeat = []"
| "fullfact_columns (l # levels) level_repeat range_repeat =
     (let range_repeat' = range_repeat div l;
          lvl = concat (map (\<lambda>j. replicate level_repeat j) [0..<l]);
          rng = concat (replicate range_repeat' lvl)
      in rng # fullfact_columns levels (level_repeat * l) range_repeat')"

text \<open>
  \<^verbatim>\<open>Strata.fullfact(levels)\<close>: the design matrix by rows. \<^verbatim>\<open>np.prod([])\<close> is the float
  1.0, which \<^verbatim>\<open>np.zeros\<close> refuses as a shape (TypeError); the assignment
  \<^verbatim>\<open>ff[:, i] = rng\<close> needs a column of \<open>n_comb\<close> entries, or of one entry that numpy
  repeats (ValueError otherwise).
\<close>

definition fullfact :: "nat list \<Rightarrow> error + real list list" where
  "fullfact levels =
     (if levels = [] then Inl TypeError
      else
        let n_comb = prod_list levels;
            columns = fullfact_columns levels 1 (prod_list levels)
        in if list_ex (\<lambda>rng. length rng \<noteq> n_comb \<and> length rng \<noteq> 1) columns then Inl ValueError
           else Inr (map (\<lambda>k. map (\<lambda>rng. real (if length rng = n_comb then rng ! k else rng ! 0))
                                columns) [0..<n_comb]))"

record strata =
  origins :: "real list list"
  widths :: "real list list"
  weights :: "real list"

text \<open>
  \<^verbatim>\<open>Strata(nstrata=...)\<close> (lines 651 to 656): the origins are the design matrix divided by
  the strata counts, column by column, the widths are their reciprocals, and the weights are
  the products of the widths of each row. The construction from an input file or from
  origins and widths is not part of the model.
\<close>

definition Strata :: "nat list \<Rightarrow> error + strata" where
  "Strata nstrata =
     and_then (fullfact nstrata) (\<lambda>ff.
       let origins = map (\<lambda>row. map2 (\<lambda>v n. v / real n) row nstrata) ff;
           widths = map (\<lambda>row. map2 (\<lambda>v n. v / real n) (map (\<lambda>_. 1) row) nstrata) origins
       in Inr \<lparr> origins = origins, widths = widths, weights = map prod_list widths \<rparr>)"

text \<open>
  The column of levels the specification describes for dimension \<open>i\<close>: each level value
  repeated \<open>product(nstrata[0..i-1])\<close> times consecutively, and the block of all levels
  tiled \<open>product(nstrata[i+1..])\<close> times.
\<close>

definition level_column :: "nat list \<Rightarrow> nat \<Rightarrow> nat list" where
  "level_column nstrata i =
     concat (replicate (prod_list (drop (Suc i) nstrata))
       (concat (map (\<lambda>v. replicate (prod_list (take i nstrata)) v) [0..<nstrata ! i])))"

subsection \<open>Stratified sampling\<close>

text \<open>
  \<^verbatim>\<open>dist_params\<close> as a caller may give it: one array of parameters, or a list of them. The
  arguments of \<^verbatim>\<open>STS.__init__\<close>; the option \<^verbatim>\<open>input_file\<close> is always omitted in the model.
\<close>

datatype pyparams = OneArray "real list" | ParamLists "real list list"

record sts_args =
  s_dimension :: "nat option"
  s_dist_type :: "pyval option"
  s_dist_params :: "pyparams option"
  s_sts_design :: "nat list option"

record sts =
  sts_dimension :: nat
  sts_dist_type :: "string list"
  sts_dist_params :: "real list list"
  sts_strata :: strata

text \<open>\<^verbatim>\<open>STS.init_sts\<close> (lines 519 to 571).\<close>

definition init_sts :: "sts_args \<Rightarrow> error + sts" where
  "init_sts a =
     and_then
       (case (s_dimension a, s_sts_design a) of
          (None, Some design) \<Rightarrow> Inr (length design)
        | (Some d, Some design) \<Rightarrow> if d \<noteq> length design then Inl NotImplementedError else Inr d
        | (None, None) \<Rightarrow> Inl NotImplementedError
        | (Some d, None) \<Rightarrow> Inr d)
       (\<lambda>d.
     and_then
       (let dt = (case s_dist_type a of
                    None \<Rightarrow> [''Uniform''] | Some (PyStr s) \<Rightarrow> [s] | Some (PyList l) \<Rightarrow> l)
        in if length dt \<noteq> d then
             (if length dt = 1 then Inr (concat (replicate d dt)) else Inl NotImplementedError)
           else Inr dt)
       (\<lambda>dt.
     and_then
       (case s_dist_params a of
          None \<Rightarrow>
            if list_ex (\<lambda>t. t \<noteq> ''Uniform'') dt then Inl NotImplementedError
            else if dt = [] then Inr []
            else Inr [[0, 1]]
        | Some (OneArray p) \<Rightarrow> Inr [p]
        | Some (ParamLists ps) \<Rightarrow> Inr ps)
       (\<lambda>dp.
     and_then
       (if length dp \<noteq> d then
          (if length dp = 1 then Inr (concat (replicate d dp)) else Inl NotImplementedError)
        else Inr dp)
       (\<lambda>dp'.
          case s_sts_design a of
            None \<Rightarrow> Inl NotImplementedError
          | Some design \<Rightarrow>
              if length design \<noteq> d then Inl NotImplementedError
              else and_then (Strata design) (\<lambda>st.
                     Inr \<lparr> sts_dimension = d, sts_dist_type = dt, sts_dist_params = dp',
                           sts_strata = st \<rparr>)))))"

text \<open>
  The entry \<open>(i, j)\<close> of \<^verbatim>\<open>run_sts\<close> (lines 514 to 516): a uniform point of the stratum,
  and its image under the inverse distribution function of column \<open>j\<close>.
\<close>

definition sts_entry ::
  "sts \<Rightarrow> (nat \<Rightarrow> nat \<Rightarrow> real) \<Rightarrow> icdf \<Rightarrow> nat \<Rightarrow> nat \<Rightarrow>
     real list list \<times> real list list \<Rightarrow> error + real list list \<times> real list list" where
  "sts_entry c u invcdf j i = (\<lambda>(smp, smp_x).
     and_then (getitem2 (origins (sts_strata c)) i j) (\<lambda>origin.
     and_then (getitem2 (widths (sts_strata c)) i j) (\<lambda>width.
     and_then (setitem2 smp i j (np_uniform (u i j) origin (origin + width))) (\<lambda>smp'.
     and_then (getitem (sts_dist_params c) j) (\<lambda>params.
     and_then (invcdf (np_uniform (u i j) origin (origin + width)) params) (\<lambda>x.
     and_then (setitem2 smp_x i j x) (\<lambda>smp_x'.
       Inr (smp', smp_x'))))))))"

text \<open>
  \<^verbatim>\<open>STS.run_sts\<close> (lines 508 to 517), column by column; \<open>fs\<close> is \<^verbatim>\<open>self.icdf\<close>. The number
  of columns is that of the first row of the origins.
\<close>

definition run_sts ::
  "sts \<Rightarrow> (nat \<Rightarrow> nat \<Rightarrow> real) \<Rightarrow> icdf list \<Rightarrow> error + real list list \<times> real list list" where
  "run_sts c u fs =
     (let rows = length (origins (sts_strata c));
          cols = (case origins (sts_strata c) of [] \<Rightarrow> sts_dimension c | row # _ \<Rightarrow> length row)
      in for_loop [0..<cols]
           (\<lambda>j st. and_then (getitem fs j) (\<lambda>invcdf.
                      for_loop [0..<rows] (sts_entry c u invcdf j) st))
           (zeros rows cols, zeros rows cols))"

text \<open>
  \<^verbatim>\<open>STS(...)\<close> (lines 497 to 506): validation, \<^verbatim>\<open>inv_cdf\<close> on the list of names, sampling.
  The result is the pair \<^verbatim>\<open>samplesU01\<close>, \<^verbatim>\<open>samples\<close>.
\<close>

definition STS ::
  "env \<Rightarrow> (nat \<Rightarrow> nat \<Rightarrow> real) \<Rightarrow> sts_args \<Rightarrow> error + real list list \<times> real list list" where
  "STS e u a =
     and_then (init_sts a) (\<lambda>c.
     and_then (call_inv_cdf e [Names (PyList (sts_dist_type c))]) (\<lambda>res.
       case res of
         Functions fs \<Rightarrow> run_sts c u fs
       | Same v \<Rightarrow> Inl TypeError))"

text \<open>
  A call of \<^verbatim>\<open>STS\<close> by keywords: Python raises TypeError for a keyword that is not a
  parameter of \<^verbatim>\<open>STS.__init__\<close>.
\<close>

definition sts_parameters :: "string list" where
  "sts_parameters = [''dimension'', ''dist_type'', ''dist_params'', ''sts_design'', ''input_file'']"

definition call_STS ::
  "env \<Rightarrow> (nat \<Rightarrow> nat \<Rightarrow> real) \<Rightarrow> string list \<Rightarrow> sts_args \<Rightarrow>
     error + real list list \<times> real list list" where
  "call_STS e u keywords a =
     (if list_ex (\<lambda>k. k \<notin> set sts_parameters) keywords then Inl TypeError else STS e u a)"

subsection \<open>Partially stratified sampling\<close>

record pss_args =
  p_dimension :: "nat option"
  p_dist_type :: "string list option"
  p_dist_params :: "real list list option"
  p_pss_design :: "nat list option"
  p_pss_strata :: "nat list option"

record pss =
  pss_dimension :: nat
  pss_dist_type :: "string list"
  pss_dist_params :: "real list list"
  pss_design :: "nat list"
  pss_strata :: "nat list"
  pss_nsamples :: nat

text \<open>
  \<^verbatim>\<open>PSS.init_pss\<close> (lines 386 to 436). \<^verbatim>\<open>sample_check\<close> holds every
  \<^verbatim>\<open>pss_strata[i] ** pss_design[j]\<close>; \<^verbatim>\<open>np.max\<close> of an empty array raises ValueError.
\<close>

definition init_pss :: "pss_args \<Rightarrow> error + (nat \<times> string list \<times> real list list \<times> nat list \<times> nat list)" where
  "init_pss a =
     (case p_dist_type a of
        None \<Rightarrow> Inl NotImplementedError
      | Some dt \<Rightarrow>
          if list_ex (\<lambda>i. i \<notin> set builtin_names) dt then Inl NotImplementedError
          else
      (case p_dist_params a of
        None \<Rightarrow> Inl NotImplementedError
      | Some dp \<Rightarrow>
      (case p_pss_design a of
        None \<Rightarrow> Inl NotImplementedError
      | Some design \<Rightarrow>
      (case p_pss_strata a of
        None \<Rightarrow> Inl NotImplementedError
      | Some stratum \<Rightarrow>
          if length design \<noteq> length stratum then Inl ValueError
          else
            let sample_check = concat (map (\<lambda>s. map (\<lambda>k. s ^ k) design) stratum) in
            if sample_check = [] then Inl ValueError
            else if Max (set sample_check) \<noteq> Min (set sample_check) then Inl ValueError
            else
              and_then
                (case p_dimension a of
                   None \<Rightarrow> Inr (sum_list design)
                 | Some d \<Rightarrow> if d \<noteq> sum_list design then Inl NotImplementedError else Inr d)
                (\<lambda>d.
              and_then (broadcast_dist d dt dp) (\<lambda>(dt', dp').
                Inr (d, dt', dp', design, stratum)))))))"

text \<open>
  The pseudo-random source of one PSS run, by the block \<open>i\<close>: the uniform draws of the
  stratified sample of the block, and the two permutations of the rows that
  \<^verbatim>\<open>np.random.permutation(arr)\<close> returns, the first for \<^verbatim>\<open>samples\<close> and the second for
  \<^verbatim>\<open>samples_u_to_x\<close>.
\<close>

record pss_draws =
  block01 :: "nat \<Rightarrow> nat \<Rightarrow> nat \<Rightarrow> real"
  perm_u01 :: "nat \<Rightarrow> nat list"
  perm_x :: "nat \<Rightarrow> nat list"

text \<open>
  \<^verbatim>\<open>a[:, index] = block\<close> for the columns \<open>col, \<dots>, col + k - 1\<close>: the block must have the
  shape of the slice, up to the repetition of a single row or column (ValueError otherwise).
\<close>

definition set_block :: "real list list \<Rightarrow> nat \<Rightarrow> nat \<Rightarrow> real list list \<Rightarrow> error + real list list" where
  "set_block a col k block =
     (if (length block = length a \<or> length block = 1) \<and>
         list_all (\<lambda>row. length row = k \<or> length row = 1) block then
        Inr (map (\<lambda>i. let brow = (if length block = 1 then block ! 0 else block ! i);
                          vals = (if length brow = k then brow else replicate k (brow ! 0))
                      in take col (a ! i) @ vals @ drop (col + k) (a ! i))
               [0..<length a])
      else Inl ValueError)"

text \<open>
  \<^verbatim>\<open>a[:, index] = a[perm, index]\<close> (lines 375 and 376): row \<open>i\<close> of the block of columns
  becomes row \<open>perm[i]\<close> of it.
\<close>

definition permute_block :: "real list list \<Rightarrow> nat \<Rightarrow> nat \<Rightarrow> nat list \<Rightarrow> real list list" where
  "permute_block a col k perm =
     map (\<lambda>i. take col (a ! i) @ take k (drop col (a ! (perm ! i))) @ drop (col + k) (a ! i))
       [0..<length a]"

text \<open>
  One pass of the loop of \<^verbatim>\<open>run_pss\<close> (lines 369 to 377) for the block \<open>i\<close>; the state is
  \<^verbatim>\<open>samples\<close>, \<^verbatim>\<open>samples_u_to_x\<close> and \<^verbatim>\<open>col\<close>. The call of \<^verbatim>\<open>STS\<close> passes the keywords
  \<^verbatim>\<open>dist_type\<close>, \<^verbatim>\<open>dist_params\<close>, \<^verbatim>\<open>sts_design\<close> and \<^verbatim>\<open>pss_\<close>.
\<close>

definition pss_block ::
  "env \<Rightarrow> pss_draws \<Rightarrow> pss \<Rightarrow> nat \<Rightarrow> real list list \<times> real list list \<times> nat \<Rightarrow>
     error + real list list \<times> real list list \<times> nat" where
  "pss_block e r c i = (\<lambda>(smp, smp_x, col).
     and_then (getitem (pss_strata c) i) (\<lambda>stratum.
     and_then (getitem (pss_design c) i) (\<lambda>k.
       let n_stratum = replicate k stratum in
       and_then (call_STS e (block01 r i) [''dist_type'', ''dist_params'', ''sts_design'', ''pss_'']
                   \<lparr> s_dimension = None, s_dist_type = Some (PyList (pss_dist_type c)),
                     s_dist_params = Some (ParamLists (pss_dist_params c)),
                     s_sts_design = Some n_stratum \<rparr>) (\<lambda>(samplesU01, samples_x).
       and_then (set_block smp col k samplesU01) (\<lambda>smp1.
       and_then (set_block smp_x col k samples_x) (\<lambda>smp_x1.
         Inr (permute_block smp1 col k (perm_u01 r i),
              permute_block smp_x1 col k (perm_x r i),
              col + k)))))))"

text \<open>\<^verbatim>\<open>PSS.run_pss\<close> (lines 364 to 379).\<close>

definition run_pss :: "env \<Rightarrow> pss_draws \<Rightarrow> pss \<Rightarrow> error + real list list \<times> real list list" where
  "run_pss e r c =
     and_then (for_loop [0..<length (pss_design c)] (pss_block e r c)
                 (zeros (pss_nsamples c) (pss_dimension c),
                  zeros (pss_nsamples c) (pss_dimension c), 0)) (\<lambda>(smp, smp_x, col).
       Inr (smp, smp_x))"

text \<open>
  \<^verbatim>\<open>PSS(...)\<close> (lines 353 to 362): validation, the number of samples
  \<^verbatim>\<open>pss_strata[0] ** pss_design[0]\<close>, sampling.
\<close>

definition PSS :: "env \<Rightarrow> pss_draws \<Rightarrow> pss_args \<Rightarrow> error + real list list \<times> real list list" where
  "PSS e r a =
     and_then (init_pss a) (\<lambda>(d, dt, dp, design, stratum).
     and_then (getitem stratum 0) (\<lambda>s0.
     and_then (getitem design 0) (\<lambda>k0.
       run_pss e r \<lparr> pss_dimension = d, pss_dist_type = dt, pss_dist_params = dp,
                     pss_design = design, pss_strata = stratum, pss_nsamples = s0 ^ k0 \<rparr>)))"

text \<open>
  \<^verbatim>\<open>PSS(dist_type=['Uniform'], dist_params=[[0, 1]], pss_design=[1], pss_strata=[2])\<close>:
  one block of one dimension with two strata.
\<close>

definition pss_example :: pss_args where
  "pss_example =
     \<lparr> p_dimension = None, p_dist_type = Some [''Uniform''], p_dist_params = Some [[0, 1]],
       p_pss_design = Some [1], p_pss_strata = Some [2] \<rparr>"

subsection \<open>MCMC: the options and their validation\<close>

text \<open>A target density \<^verbatim>\<open>f(x, params)\<close>; a scalar argument is the list of one entry.\<close>

type_synonym pdf = "real list \<Rightarrow> real list \<Rightarrow> real"

text \<open>
  What \<^verbatim>\<open>pdf_target\<close> may hold: one function or a list of functions. A string, which
  \<^verbatim>\<open>init_mcmc\<close> hands to \<^verbatim>\<open>Distributions.pdf\<close>, is outside this type.
\<close>

datatype target = Fun pdf | FunList "pdf list"

text \<open>
  The quotient \<^verbatim>\<open>p_proposal / p_current\<close> with a zero divisor depends on what the target
  returns: Python floats raise ZeroDivisionError, numpy floats give inf or nan and a warning.
\<close>

datatype float_kind = PyFloat | NumpyFloat

text \<open>The keyword arguments of \<^verbatim>\<open>MCMC.__init__\<close>; \<open>None\<close> is an omitted option.\<close>

record mcmc_args =
  a_dimension :: "nat option"
  a_pdf_proposal_type :: "pyval option"
  a_pdf_proposal_scale :: "pynum option"
  a_pdf_target_type :: "string option"
  a_pdf_target :: "target option"
  a_pdf_target_params :: "pynum option"
  a_algorithm :: "string option"
  a_jump :: "nat option"
  a_nsamples :: "nat option"
  a_seed :: "ndarray option"
  a_nburn :: "nat option"

text \<open>The attributes of the object once \<^verbatim>\<open>init_mcmc\<close> has returned.\<close>

record mcmc =
  dimension :: nat
  pdf_proposal_type :: pyval
  pdf_proposal_scale :: "real list"
  pdf_target_type :: "string option"
  pdf_target :: "pdf list"
  pdf_target_params :: "real list"
  algorithm :: string
  jump :: nat
  nsamples :: nat
  seed :: ndarray
  nburn :: nat
  floats :: float_kind

text \<open>The default targets: \<^verbatim>\<open>sp.norm.pdf(x)\<close> and the standard multivariate normal.\<close>

definition norm_pdf :: pdf where
  "norm_pdf x dummy = exp (- (hd x)\<^sup>2 / 2) / sqrt (2 * pi)"

definition multivariate_normal_pdf :: "nat \<Rightarrow> pdf" where
  "multivariate_normal_pdf d x dummy =
     exp (- sum_list (map (\<lambda>v. v\<^sup>2) x) / 2) / sqrt ((2 * pi) ^ d)"

text \<open>\<^verbatim>\<open># Check seed\<close>\<close>

definition check_seed :: "string option \<Rightarrow> nat \<Rightarrow> ndarray option \<Rightarrow> error + ndarray" where
  "check_seed alg d s =
     (let seed = (case s of None \<Rightarrow> Arr1 (replicate d 0) | Some a \<Rightarrow> a) in
      if alg \<noteq> Some ''Stretch'' then
        (if len seed \<noteq> d then Inl NotImplementedError else Inr seed)
      else
        (if len seed < 3 then Inl NotImplementedError else Inr seed))"

text \<open>\<^verbatim>\<open># Check pdf_proposal_type\<close>\<close>

definition check_pdf_proposal_type :: "string option \<Rightarrow> nat \<Rightarrow> pyval option \<Rightarrow> error + pyval" where
  "check_pdf_proposal_type alg d t =
     (let t1 = (case t of None \<Rightarrow> PyStr ''Uniform'' | Some v \<Rightarrow> v);
          names = (case t1 of PyStr s \<Rightarrow> [s] | PyList l \<Rightarrow> l) in
      if list_ex (\<lambda>i. i \<noteq> ''Uniform'' \<and> i \<noteq> ''Normal'') names then Inl ValueError
      else if alg = Some ''MH'' \<and> length names \<noteq> 1 then Inl ValueError
      else if length names \<noteq> d then
        (if length names = 1 then Inr (PyList (concat (replicate d names)))
         else Inl NotImplementedError)
      else Inr (PyList names))"

text \<open>\<^verbatim>\<open># Check pdf_proposal_scale\<close>\<close>

definition check_pdf_proposal_scale :: "string option \<Rightarrow> nat \<Rightarrow> pynum option \<Rightarrow> error + real list" where
  "check_pdf_proposal_scale alg d s =
     (let s1 = (case s of None \<Rightarrow> (if alg = Some ''Stretch'' then Num 2 else Num 1) | Some v \<Rightarrow> v);
          scales = (case s1 of Num x \<Rightarrow> [x] | NumList l \<Rightarrow> l) in
      if length scales \<noteq> d then
        (if length scales = 1 then Inr (concat (replicate d scales))
         else Inl NotImplementedError)
      else Inr scales)"

text \<open>\<^verbatim>\<open># Check pdf_target_type\<close>, which reads the algorithm as the caller gave it.\<close>

definition check_pdf_target_type :: "string option \<Rightarrow> string option \<Rightarrow> error + string option" where
  "check_pdf_target_type alg t =
     (let t1 = (if alg = Some ''MMH'' \<and> t = None then Some ''marginal_pdf'' else t);
          t2 = (if alg = Some ''Stretch'' then Some ''joint_pdf'' else t1) in
      if t2 \<noteq> Some ''joint_pdf'' \<and> t2 \<noteq> Some ''marginal_pdf'' then Inl ValueError
      else Inr t2)"

text \<open>\<^verbatim>\<open># Check algorithm\<close>\<close>

definition check_algorithm :: "string option \<Rightarrow> error + string" where
  "check_algorithm alg =
     (case alg of
        None \<Rightarrow> Inr ''MMH''
      | Some s \<Rightarrow>
          if s \<noteq> ''MH'' \<and> s \<noteq> ''MMH'' \<and> s \<noteq> ''Stretch'' then Inl NotImplementedError
          else Inr s)"

text \<open>\<^verbatim>\<open># Check pdf_target\<close>, with the algorithm and the target type as resolved above.\<close>

definition check_pdf_target :: "string \<Rightarrow> nat \<Rightarrow> string option \<Rightarrow> target option \<Rightarrow> pdf list" where
  "check_pdf_target alg d ttype t =
     (case t of
        None \<Rightarrow>
          if alg = ''MMH'' then
            (if d = 1 \<or> ttype = Some ''marginal_pdf'' then
               (if d = 1 then [norm_pdf] else replicate d norm_pdf)
             else [multivariate_normal_pdf d])
          else
            (if d = 1 then [norm_pdf] else [multivariate_normal_pdf d])
      | Some (Fun f) \<Rightarrow> [f]
      | Some (FunList fs) \<Rightarrow> fs)"

text \<open>
  \<^verbatim>\<open>MCMC.init_mcmc\<close>: the checks in the order of the source. The first failing check
  raises; \<open>fk\<close> records what kind of float the target returns.
\<close>

definition init_mcmc :: "float_kind \<Rightarrow> mcmc_args \<Rightarrow> error + mcmc" where
  "init_mcmc fk a =
     (let d = (case a_dimension a of None \<Rightarrow> 1 | Some n \<Rightarrow> n);
          alg = a_algorithm a in
      case a_nsamples a of
        None \<Rightarrow> Inl NotImplementedError
      | Some ns \<Rightarrow>
      (case check_seed alg d (a_seed a) of
        Inl e \<Rightarrow> Inl e
      | Inr sd \<Rightarrow>
      (case check_pdf_proposal_type alg d (a_pdf_proposal_type a) of
        Inl e \<Rightarrow> Inl e
      | Inr ptype \<Rightarrow>
      (case check_pdf_proposal_scale alg d (a_pdf_proposal_scale a) of
        Inl e \<Rightarrow> Inl e
      | Inr pscale \<Rightarrow>
      (case check_pdf_target_type alg (a_pdf_target_type a) of
        Inl e \<Rightarrow> Inl e
      | Inr ttype \<Rightarrow>
      (case check_algorithm alg of
        Inl e \<Rightarrow> Inl e
      | Inr alg' \<Rightarrow>
          Inr \<lparr> dimension = d,
                pdf_proposal_type = ptype,
                pdf_proposal_scale = pscale,
                pdf_target_type = ttype,
                pdf_target = check_pdf_target alg' d ttype (a_pdf_target a),
                pdf_target_params =
                  (case a_pdf_target_params a of
                     None \<Rightarrow> [] | Some (Num x) \<Rightarrow> [x] | Some (NumList l) \<Rightarrow> l),
                algorithm = alg',
                jump = (case a_jump a of None \<Rightarrow> 1 | Some j \<Rightarrow> j),
                nsamples = ns,
                seed = sd,
                nburn = (case a_nburn a of None \<Rightarrow> 0 | Some b \<Rightarrow> b),
                floats = fk \<rparr>))))))"

text \<open>The call \<^verbatim>\<open>MCMC(nsamples=n)\<close> with every other option omitted.\<close>

definition only_nsamples :: "nat \<Rightarrow> mcmc_args" where
  "only_nsamples n =
     \<lparr> a_dimension = None, a_pdf_proposal_type = None, a_pdf_proposal_scale = None,
       a_pdf_target_type = None, a_pdf_target = None, a_pdf_target_params = None,
       a_algorithm = None, a_jump = None, a_nsamples = Some n, a_seed = None,
       a_nburn = None \<rparr>"

subsection \<open>MCMC: the pseudo-random source and the chain\<close>

text \<open>
  The values the pseudo-random source returns during one run, by the step \<open>i\<close> (and the
  coordinate \<open>j\<close>) of the call: the standard normal and the unit uniform variate behind a
  proposal, the value of \<^verbatim>\<open>np.random.random()\<close> in the acceptance test, and for Stretch the
  index \<^verbatim>\<open>random.choice\<close> picks and the value of \<^verbatim>\<open>random.random()\<close>.
\<close>

record draws =
  normal01 :: "nat \<Rightarrow> nat \<Rightarrow> real"
  uniform01 :: "nat \<Rightarrow> nat \<Rightarrow> real"
  random01 :: "nat \<Rightarrow> nat \<Rightarrow> real"
  pick :: "nat \<Rightarrow> nat"
  stretch01 :: "nat \<Rightarrow> real"

text \<open>
  The state of the loops of \<^verbatim>\<open>run_mcmc\<close>: the buffer \<^verbatim>\<open>samples\<close>, the local variables
  \<^verbatim>\<open>candidate\<close> (\<open>None\<close> while unbound; a scalar is a list of one entry) and
  \<^verbatim>\<open>current\<close>, and a trace that records, for every acceptance test passed through, the
  candidate drawn and the value of \<^verbatim>\<open>accept\<close>.
\<close>

record chain =
  samples :: "real list list"
  candidate :: "real list option"
  current :: "real list"
  trace :: "(real list \<times> bool) list"

text \<open>
  \<^verbatim>\<open>accept = np.random.random() < num / den\<close>. With a zero divisor Python floats raise;
  numpy floats give inf (the test holds), nan or -inf (it fails).
\<close>

definition accept_test :: "float_kind \<Rightarrow> real \<Rightarrow> real \<Rightarrow> real \<Rightarrow> error + bool" where
  "accept_test fk u num den =
     (if den = 0 then
        (case fk of PyFloat \<Rightarrow> Inl ZeroDivisionError | NumpyFloat \<Rightarrow> Inr (0 < num))
      else Inr (u < num / den))"

text \<open>The number of rows of the buffer and the bound of the MH and MMH loops.\<close>

definition raw_steps :: "mcmc \<Rightarrow> nat" where
  "raw_steps c = nsamples c * jump c"

definition transitions :: "mcmc \<Rightarrow> nat" where
  "transitions c = nat (int (nsamples c * jump c) - 1 + int (nburn c))"

definition start :: "real list list \<Rightarrow> chain" where
  "start a = \<lparr> samples = a, candidate = None, current = [], trace = [] \<rparr>"

subsection \<open>MCMC: Metropolis-Hastings\<close>

text \<open>
  The proposal of MH at step \<open>i\<close> from the row \<open>x\<close>; \<open>t0\<close> is \<^verbatim>\<open>self.pdf_proposal_type[0]\<close>.
  The second test compares the whole attribute, the list that \<^verbatim>\<open>init_mcmc\<close> made of it,
  with the string \<^verbatim>\<open>'Uniform'\<close>. When neither test holds \<^verbatim>\<open>candidate\<close> keeps its value.
  With \<^verbatim>\<open>multivariate_normal\<close> and the covariance \<^verbatim>\<open>np.diag(scale)\<close> the standard deviation
  of coordinate \<open>j\<close> is the root of the scale.
\<close>

definition mh_proposal ::
  "mcmc \<Rightarrow> draws \<Rightarrow> nat \<Rightarrow> string \<Rightarrow> real list \<Rightarrow> real list option \<Rightarrow> real list option" where
  "mh_proposal c r i t0 x prev =
     (if t0 = ''Normal'' then
        (if dimension c = 1 then
           Some (map (\<lambda>j. np_normal (normal01 r i j) (x ! j) (pdf_proposal_scale c ! j))
                   [0..<dimension c])
         else
           Some (map (\<lambda>j. np_normal (normal01 r i j) (x ! j) (sqrt (pdf_proposal_scale c ! j)))
                   [0..<dimension c]))
      else if pdf_proposal_type c = PyStr ''Uniform'' then
        Some (map (\<lambda>j. np_uniform (uniform01 r i j)
                          (x ! j - pdf_proposal_scale c ! j / 2)
                          (x ! j + pdf_proposal_scale c ! j / 2))
                [0..<dimension c])
      else prev)"

text \<open>The body of the MH loop (lines 855 to 879).\<close>

definition mh_step :: "mcmc \<Rightarrow> pdf \<Rightarrow> draws \<Rightarrow> nat \<Rightarrow> chain \<Rightarrow> error + chain" where
  "mh_step c pdf_fn r i st =
     and_then (names_getitem (pdf_proposal_type c) 0) (\<lambda>t0.
     and_then (getitem (samples st) i) (\<lambda>x.
       case mh_proposal c r i t0 x (candidate st) of
         None \<Rightarrow> Inl UnboundLocalError
       | Some y \<Rightarrow>
           and_then (accept_test (floats c) (random01 r i 0)
                       (pdf_fn y (pdf_target_params c)) (pdf_fn x (pdf_target_params c))) (\<lambda>accept.
           and_then (setitem (samples st) (i + 1) (if accept then y else x)) (\<lambda>a.
             Inr (st \<lparr> samples := a, candidate := Some y,
                       trace := trace st @ [(y, accept)] \<rparr>)))))"

text \<open>
  The MH branch (lines 846 to 879) with the loop cut after \<open>m\<close> transitions, and the branch
  itself, whose loop makes \<open>nsamples * jump - 1 + nburn\<close> of them.
\<close>

definition mh_steps :: "mcmc \<Rightarrow> draws \<Rightarrow> nat \<Rightarrow> error + chain" where
  "mh_steps c r m =
     and_then (getitem (zeros (raw_steps c) (dimension c)) 0) (\<lambda>_.
     and_then (broadcast_row (dimension c) (seed c)) (\<lambda>s.
     and_then (getitem (pdf_target c) 0) (\<lambda>pdf_fn.
       for_loop [0..<m] (mh_step c pdf_fn r)
         (start ((zeros (raw_steps c) (dimension c))[0 := s])))))"

definition mh_chain :: "mcmc \<Rightarrow> draws \<Rightarrow> error + chain" where
  "mh_chain c r = mh_steps c r (transitions c)"

subsection \<open>MCMC: Modified Metropolis-Hastings\<close>

text \<open>
  The draw for coordinate \<open>j\<close> at step \<open>i\<close>, shared by both target types; \<open>None\<close> when the
  proposal type is neither name, so that nothing is assigned.
\<close>

definition mmh_draw :: "mcmc \<Rightarrow> draws \<Rightarrow> nat \<Rightarrow> nat \<Rightarrow> real list list \<Rightarrow> error + real option" where
  "mmh_draw c r i j a =
     and_then (names_getitem (pdf_proposal_type c) j) (\<lambda>t.
       if t = ''Normal'' then
         and_then (getitem2 a i j) (\<lambda>x.
         and_then (getitem (pdf_proposal_scale c) j) (\<lambda>s.
           Inr (Some (np_normal (normal01 r i j) x s))))
       else if t = ''Uniform'' then
         and_then (getitem2 a i j) (\<lambda>x.
         and_then (getitem (pdf_proposal_scale c) j) (\<lambda>s.
           Inr (Some (np_uniform (uniform01 r i j) (x - s / 2) (x + s / 2)))))
       else Inr None)"

text \<open>The body of the inner loop with the marginal target (lines 891 to 909).\<close>

definition mmh_marginal_step :: "mcmc \<Rightarrow> draws \<Rightarrow> nat \<Rightarrow> nat \<Rightarrow> chain \<Rightarrow> error + chain" where
  "mmh_marginal_step c r i j st =
     and_then (getitem (pdf_target c) j) (\<lambda>pdf_fn.
     and_then (mmh_draw c r i j (samples st)) (\<lambda>drawn.
       case (case drawn of None \<Rightarrow> candidate st | Some v \<Rightarrow> Some [v]) of
         None \<Rightarrow> Inl UnboundLocalError
       | Some y \<Rightarrow>
           and_then (getitem2 (samples st) i j) (\<lambda>x.
           and_then (accept_test (floats c) (random01 r i j)
                       (pdf_fn y (pdf_target_params c)) (pdf_fn [x] (pdf_target_params c))) (\<lambda>accept.
           and_then (setitem2 (samples st) (i + 1) j (if accept then hd y else x)) (\<lambda>a.
             Inr (st \<lparr> samples := a, candidate := Some y,
                       trace := trace st @ [(y, accept)] \<rparr>))))))"

text \<open>The body of the inner loop with the joint target (lines 919 to 936).\<close>

definition mmh_joint_step :: "mcmc \<Rightarrow> pdf \<Rightarrow> draws \<Rightarrow> nat \<Rightarrow> nat \<Rightarrow> chain \<Rightarrow> error + chain" where
  "mmh_joint_step c pdf_fn r i j st =
     and_then (mmh_draw c r i j (samples st)) (\<lambda>drawn.
     and_then (case candidate st of None \<Rightarrow> Inl UnboundLocalError
               | Some cv \<Rightarrow> (case drawn of None \<Rightarrow> Inr cv | Some v \<Rightarrow> setitem cv j v)) (\<lambda>cand.
     and_then (accept_test (floats c) (random01 r i j)
                 (pdf_fn cand (pdf_target_params c)) (pdf_fn (current st) (pdf_target_params c))) (\<lambda>accept.
     and_then (getitem cand j) (\<lambda>cj.
       if accept then
         and_then (setitem (current st) j cj) (\<lambda>cur.
           Inr (st \<lparr> candidate := Some cand, current := cur,
                     trace := trace st @ [([cj], accept)] \<rparr>))
       else
         and_then (getitem (current st) j) (\<lambda>v.
           Inr (st \<lparr> candidate := Some (cand[j := v]),
                     trace := trace st @ [([cj], accept)] \<rparr>))))))"

text \<open>The body of the outer loop with the joint target (lines 915 to 938).\<close>

definition mmh_joint_outer :: "mcmc \<Rightarrow> pdf \<Rightarrow> draws \<Rightarrow> nat \<Rightarrow> chain \<Rightarrow> error + chain" where
  "mmh_joint_outer c pdf_fn r i st =
     and_then (getitem (samples st) i) (\<lambda>x.
     and_then (for_loop [0..<dimension c] (mmh_joint_step c pdf_fn r i)
                 (st \<lparr> candidate := Some x, current := x \<rparr>)) (\<lambda>st'.
     and_then (setitem (samples st') (i + 1) (current st')) (\<lambda>a.
       Inr (st' \<lparr> samples := a \<rparr>))))"

text \<open>
  The MMH branch (lines 883 to 938) with the outer loop cut after \<open>m\<close> transitions, and the
  branch itself.
\<close>

definition mmh_steps :: "mcmc \<Rightarrow> draws \<Rightarrow> nat \<Rightarrow> error + chain" where
  "mmh_steps c r m =
     and_then (getitem (zeros (raw_steps c) (dimension c)) 0) (\<lambda>_.
     and_then (broadcast_row (dimension c) (seed c)) (\<lambda>s.
       let st0 = start ((zeros (raw_steps c) (dimension c))[0 := s]) in
       if pdf_target_type c = Some ''marginal_pdf'' then
         for_loop [0..<m]
           (\<lambda>i. for_loop [0..<dimension c] (mmh_marginal_step c r i)) st0
       else if pdf_target_type c = Some ''joint_pdf'' then
         and_then (getitem (pdf_target c) 0) (\<lambda>pdf_fn.
           for_loop [0..<m] (mmh_joint_outer c pdf_fn r) st0)
       else Inr st0))"

definition mmh_chain :: "mcmc \<Rightarrow> draws \<Rightarrow> error + chain" where
  "mmh_chain c r = mmh_steps c r (transitions c)"

subsection \<open>MCMC: affine invariant ensemble sampler with stretch moves\<close>

text \<open>
  \<^verbatim>\<open>samples[0:K, :] = self.seed\<close>: the slice holds the first \<open>min K (len(samples))\<close> rows,
  and numpy broadcasts the seed to that shape or raises ValueError.
\<close>

definition fit_rows :: "nat \<Rightarrow> real list list \<Rightarrow> error + real list list" where
  "fit_rows d rows =
     (if list_all (\<lambda>xs. length xs = d) rows then Inr rows
      else if list_all (\<lambda>xs. length xs = 1) rows then Inr (map (\<lambda>xs. replicate d (hd xs)) rows)
      else Inl ValueError)"

definition assign_seed :: "real list list \<Rightarrow> nat \<Rightarrow> nat \<Rightarrow> ndarray \<Rightarrow> error + real list list" where
  "assign_seed a K d sd =
     (let n = min K (length a) in
      case sd of
        Arr1 xs \<Rightarrow> and_then (fit_row d xs) (\<lambda>row. Inr (replicate n row @ drop n a))
      | Arr2 rows \<Rightarrow>
          and_then (fit_rows d rows) (\<lambda>rows'.
            if length rows' = n then Inr (rows' @ drop n a)
            else if length rows' = 1 then Inr (replicate n (hd rows') @ drop n a)
            else Inl ValueError))"

text \<open>
  \<^verbatim>\<open>(1+(a-1)*random.random())**2/a\<close> on Python floats, and \<^verbatim>\<open>random.choice(seq)\<close>, which
  returns \<^verbatim>\<open>seq[k]\<close> for the index \<open>k\<close> it drew below \<^verbatim>\<open>len(seq)\<close> and raises IndexError
  on an empty sequence.
\<close>

definition stretch_factor :: "real \<Rightarrow> real \<Rightarrow> error + real" where
  "stretch_factor a u = (if a = 0 then Inl ZeroDivisionError else Inr ((1 + (a - 1) * u)\<^sup>2 / a))"

definition random_choice :: "nat \<Rightarrow> 'a list \<Rightarrow> error + 'a" where
  "random_choice k xs = getitem xs k"

text \<open>
  The body of the Stretch loop (lines 952 to 966) for the ensemble size \<open>K\<close>. The loop
  starts at \<open>K - 1\<close>, so \<open>i - K + 2\<close> and \<open>i - K + 1\<close> are \<open>i + 2 - K\<close> and \<open>i + 1 - K\<close> on
  naturals; the slice \<^verbatim>\<open>samples[i-K+2:i+1, :]\<close> is \<open>drop (i + 2 - K) (take (i + 1) samples)\<close>.
\<close>

definition stretch_step :: "mcmc \<Rightarrow> nat \<Rightarrow> pdf \<Rightarrow> draws \<Rightarrow> nat \<Rightarrow> chain \<Rightarrow> error + chain" where
  "stretch_step c K pdf_fn r i st =
     (let complementary_ensemble = drop (i + 2 - K) (take (i + 1) (samples st)) in
      and_then (random_choice (pick r i) complementary_ensemble) (\<lambda>S.
      and_then (getitem (pdf_proposal_scale c) 0) (\<lambda>a.
      and_then (stretch_factor a (stretch01 r i)) (\<lambda>s.
      and_then (getitem (samples st) (i + 1 - K)) (\<lambda>x.
        let cand = map2 (\<lambda>Sj xj. Sj + s * (xj - Sj)) S x in
        and_then (accept_test (floats c) (random01 r i 0)
                    (power_int s (int (dimension c) - 1) * pdf_fn cand (pdf_target_params c))
                    (pdf_fn x (pdf_target_params c))) (\<lambda>accept.
        and_then (setitem (samples st) (i + 1) (if accept then cand else x)) (\<lambda>a'.
          Inr (st \<lparr> samples := a', candidate := Some cand,
                    trace := trace st @ [(cand, accept)] \<rparr>))))))))"

text \<open>The Stretch branch (lines 945 to 966); \<^verbatim>\<open>ensemble_size\<close> is \<^verbatim>\<open>len(self.seed)\<close>.\<close>

definition ensemble_size :: "mcmc \<Rightarrow> nat" where
  "ensemble_size c = len (seed c)"

text \<open>
  The branch with the loop cut at the bound \<open>b\<close>, and the branch itself, whose loop runs
  over \<^verbatim>\<open>range(ensemble_size - 1, nsamples * jump - 1)\<close>.
\<close>

definition stretch_steps :: "mcmc \<Rightarrow> draws \<Rightarrow> nat \<Rightarrow> error + chain" where
  "stretch_steps c r b =
     and_then (assign_seed (zeros (raw_steps c) (dimension c)) (ensemble_size c)
                 (dimension c) (seed c)) (\<lambda>a.
     and_then (getitem (pdf_target c) 0) (\<lambda>pdf_fn.
       for_loop [ensemble_size c - 1 ..< b]
         (stretch_step c (ensemble_size c) pdf_fn r) (start a)))"

definition stretch_chain :: "mcmc \<Rightarrow> draws \<Rightarrow> error + chain" where
  "stretch_chain c r = stretch_steps c r (raw_steps c - 1)"

subsection \<open>MCMC: the samples returned\<close>

text \<open>The slice \<^verbatim>\<open>xs[lo:hi:step]\<close> for indices that are not negative.\<close>

definition py_slice :: "'a list \<Rightarrow> nat \<Rightarrow> nat \<Rightarrow> nat \<Rightarrow> error + 'a list" where
  "py_slice xs lo hi step =
     (if step = 0 then Inl ValueError
      else Inr (map (\<lambda>k. xs ! k)
                  (filter (\<lambda>k. (k - lo) mod step = 0) [lo..<min hi (length xs)])))"

text \<open>
  \<^verbatim>\<open>output[j:j+K, :] = block\<close>: the slice holds the rows of \<open>output\<close> from \<open>j\<close> to
  \<open>j + K\<close> that exist; the block must have as many rows, or one.
\<close>

definition assign_slice :: "real list list \<Rightarrow> nat \<Rightarrow> nat \<Rightarrow> real list list \<Rightarrow> error + real list list" where
  "assign_slice out j K block =
     (let n = min (j + K) (length out) - min j (length out) in
      if length block = n then Inr (take j out @ block @ drop (j + n) out)
      else if length block = 1 then Inr (take j out @ replicate n (hd block) @ drop (j + n) out)
      else Inl ValueError)"

text \<open>The reassembly of the Stretch output (lines 974 to 980).\<close>

definition stretch_output :: "mcmc \<Rightarrow> real list list \<Rightarrow> error + real list list" where
  "stretch_output c a =
     (let K = ensemble_size c; step = jump c * K in
      if step = 0 then Inl ValueError
      else
        let starts = filter (\<lambda>i. (i - (step - K)) mod step = 0) [step - K..<length a] in
        for_loop [0..<length starts]
          (\<lambda>n out. assign_slice out (n * K) K (take K (drop (starts ! n) a)))
          (zeros (nsamples c) (dimension c)))"

text \<open>
  \<^verbatim>\<open>MCMC.run_mcmc\<close>: the branch of the algorithm, then the samples returned. An algorithm
  other than the three runs no branch and fails on \<^verbatim>\<open>self.ensemble_size\<close>, which only
  Stretch sets.
\<close>

definition run_chain :: "mcmc \<Rightarrow> draws \<Rightarrow> error + chain" where
  "run_chain c r =
     (if algorithm c = ''MH'' then mh_chain c r
      else if algorithm c = ''MMH'' then mmh_chain c r
      else if algorithm c = ''Stretch'' then stretch_chain c r
      else Inr (start (zeros (raw_steps c) (dimension c))))"

text \<open>
  The state of the branch when its loop has passed the indices below \<open>m\<close> without raising;
  \<^verbatim>\<open>run_mcmc\<close> runs the loop to its bound.
\<close>

definition chain_after :: "mcmc \<Rightarrow> draws \<Rightarrow> nat \<Rightarrow> error + chain" where
  "chain_after c r m =
     (if algorithm c = ''MH'' then mh_steps c r m
      else if algorithm c = ''MMH'' then mmh_steps c r m
      else if algorithm c = ''Stretch'' then stretch_steps c r m
      else Inr (start (zeros (raw_steps c) (dimension c))))"

definition loop_bound :: "mcmc \<Rightarrow> nat" where
  "loop_bound c = (if algorithm c = ''Stretch'' then raw_steps c - 1 else transitions c)"

definition run_mcmc :: "mcmc \<Rightarrow> draws \<Rightarrow> error + real list list" where
  "run_mcmc c r =
     and_then (run_chain c r) (\<lambda>st.
       if algorithm c = ''MMH'' \<or> algorithm c = ''MH'' then
         py_slice (samples st) (nburn c) (raw_steps c + nburn c) (jump c)
       else if algorithm c = ''Stretch'' then stretch_output c (samples st)
       else Inl AttributeError)"

text \<open>\<^verbatim>\<open>MCMC(...)\<close>: validation, then sampling.\<close>

definition MCMC :: "float_kind \<Rightarrow> mcmc_args \<Rightarrow> draws \<Rightarrow> error + real list list" where
  "MCMC fk a r = and_then (init_mcmc fk a) (\<lambda>c. run_mcmc c r)"

subsection \<open>MCMC: what the loops maintain\<close>

text \<open>
  The rule of one MH transition, read off the buffer and the trace: row \<open>k + 1\<close> is the
  candidate of step \<open>k\<close> when the step accepted, and row \<open>k\<close> otherwise.
\<close>

definition write_rule :: "chain \<Rightarrow> nat \<Rightarrow> bool" where
  "write_rule st k \<longleftrightarrow>
     samples st ! Suc k = (if snd (trace st ! k) then fst (trace st ! k) else samples st ! k)"

text \<open>
  After \<open>i\<close> transitions of MH: a buffer of \<open>N\<close> rows whose first row is \<open>s0\<close>, a trace
  of \<open>i\<close> entries, and the rule at every step so far.
\<close>

definition mh_inv :: "nat \<Rightarrow> real list \<Rightarrow> nat \<Rightarrow> chain \<Rightarrow> bool" where
  "mh_inv N s0 i st \<longleftrightarrow>
     length (samples st) = N \<and> length (trace st) = i \<and> samples st ! 0 = s0 \<and>
     (\<forall>k<i. write_rule st k)"

text \<open>
  The rule of MMH for coordinate \<open>j\<close> at step \<open>k\<close>; the trace holds \<open>d\<close> entries for
  every step, one for each coordinate.
\<close>

definition coord_rule :: "nat \<Rightarrow> chain \<Rightarrow> nat \<Rightarrow> nat \<Rightarrow> bool" where
  "coord_rule d st k j \<longleftrightarrow>
     samples st ! Suc k ! j =
       (if snd (trace st ! (k * d + j)) then hd (fst (trace st ! (k * d + j)))
        else samples st ! k ! j)"

definition mmh_inv :: "nat \<Rightarrow> nat \<Rightarrow> real list \<Rightarrow> nat \<Rightarrow> chain \<Rightarrow> bool" where
  "mmh_inv N d s0 i st \<longleftrightarrow>
     length (samples st) = N \<and> length (trace st) = i * d \<and> samples st ! 0 = s0 \<and>
     (\<forall>k<i. \<forall>j<d. coord_rule d st k j)"

text \<open>
  Inside step \<open>i\<close> of MMH, after \<open>j\<close> coordinates, against the state \<open>u\<close> in which the step
  began. With the marginal target the step writes into row \<open>i + 1\<close> of the buffer; with the
  joint target it works on \<^verbatim>\<open>current\<close>, a copy of the row \<open>x\<close>.
\<close>

definition marginal_inv :: "nat \<Rightarrow> chain \<Rightarrow> nat \<Rightarrow> chain \<Rightarrow> bool" where
  "marginal_inv i u j st \<longleftrightarrow>
     length (samples st) = length (samples u) \<and>
     (\<forall>m. m \<noteq> Suc i \<longrightarrow> samples st ! m = samples u ! m) \<and>
     length (trace st) = length (trace u) + j \<and>
     (\<forall>m<length (trace u). trace st ! m = trace u ! m) \<and>
     (\<forall>k<j. samples st ! Suc i ! k =
        (if snd (trace st ! (length (trace u) + k)) then hd (fst (trace st ! (length (trace u) + k)))
         else samples u ! i ! k))"

definition joint_inv :: "real list \<Rightarrow> chain \<Rightarrow> nat \<Rightarrow> chain \<Rightarrow> bool" where
  "joint_inv x u j st \<longleftrightarrow>
     samples st = samples u \<and>
     length (trace st) = length (trace u) + j \<and>
     (\<forall>m<length (trace u). trace st ! m = trace u ! m) \<and>
     (\<forall>k<j. current st ! k =
        (if snd (trace st ! (length (trace u) + k)) then hd (fst (trace st ! (length (trace u) + k)))
         else x ! k)) \<and>
     (\<forall>k\<ge>j. current st ! k = x ! k)"

text \<open>
  The rule of one Stretch transition, read off the buffer and the trace: the trace entry of
  step \<open>i\<close> is at position \<open>i + 1 - K\<close>, since the loop starts at \<open>K - 1\<close>.
\<close>

definition stretch_rule :: "mcmc \<Rightarrow> draws \<Rightarrow> chain \<Rightarrow> nat \<Rightarrow> bool" where
  "stretch_rule c r st i \<longleftrightarrow>
     (let K = ensemble_size c;
          x = samples st ! (i + 1 - K);
          a = pdf_proposal_scale c ! 0;
          z = (1 + (a - 1) * stretch01 r i)\<^sup>2 / a;
          S = samples st ! (i + 2 - K + pick r i);
          cand = map2 (\<lambda>Sj xj. Sj + z * (xj - Sj)) S x;
          e = trace st ! (i + 1 - K)
      in pick r i < K - 1 \<and> a \<noteq> 0 \<and> fst e = cand \<and>
         accept_test (floats c) (random01 r i 0)
           (power_int z (int (dimension c) - 1) * (pdf_target c ! 0) cand (pdf_target_params c))
           ((pdf_target c ! 0) x (pdf_target_params c)) = Inr (snd e) \<and>
         samples st ! (i + 1) = (if snd e then cand else x))"

definition stretch_inv :: "mcmc \<Rightarrow> draws \<Rightarrow> nat \<Rightarrow> nat \<Rightarrow> chain \<Rightarrow> bool" where
  "stretch_inv c r N i st \<longleftrightarrow>
     length (samples st) = N \<and> length (trace st) = i + 1 - ensemble_size c \<and>
     (\<forall>k. ensemble_size c - 1 \<le> k \<and> k < i \<longrightarrow> stretch_rule c r st k)"

subsection \<open>MCMC: calls used as examples\<close>

text \<open>
  \<^verbatim>\<open>MCMC(algorithm='MH', pdf_target_type='joint_pdf', pdf_proposal_type=ptype, nsamples=n,
  nburn=b)\<close>: dimension 1, the zero seed, scale 1 and the standard normal target by default.
\<close>

definition mh_args :: "string \<Rightarrow> nat \<Rightarrow> nat \<Rightarrow> mcmc_args" where
  "mh_args ptype n b =
     (only_nsamples n) \<lparr> a_pdf_proposal_type := Some (PyStr ptype),
        a_pdf_target_type := Some ''joint_pdf'', a_algorithm := Some ''MH'',
        a_nburn := Some b \<rparr>"

text \<open>A target of the caller's: density 1 up to 1 and 1/4 beyond.\<close>

definition step_target :: pdf where
  "step_target x params = (if hd x \<le> 1 then 1 else 1 / 4)"



text \<open>A pseudo-random source that returns the same values at every call.\<close>

definition fixed_draws :: draws where
  "fixed_draws =
     \<lparr> normal01 = (\<lambda>i j. 1), uniform01 = (\<lambda>i j. 1 / 2), random01 = (\<lambda>i j. 1 / 2),
       pick = (\<lambda>i. 1), stretch01 = (\<lambda>i. 1 / 2) \<rparr>"

text \<open>
  \<^verbatim>\<open>MCMC(algorithm='Stretch', pdf_target=step_target, nsamples=4, seed=np.array([[0],[1],[2]]))\<close>
  and the configuration its validation returns.
\<close>

definition stretch_args :: mcmc_args where
  "stretch_args =
     (only_nsamples 4) \<lparr> a_pdf_target := Some (Fun step_target),
        a_algorithm := Some ''Stretch'', a_seed := Some (Arr2 [[0], [1], [2]]) \<rparr>"

definition stretch_config :: mcmc where
  "stretch_config =
     \<lparr> dimension = 1, pdf_proposal_type = PyList [''Uniform''], pdf_proposal_scale = [2],
       pdf_target_type = Some ''joint_pdf'', pdf_target = [step_target],
       pdf_target_params = [], algorithm = ''Stretch'', jump = 1, nsamples = 4,
       seed = Arr2 [[0], [1], [2]], nburn = 0, floats = PyFloat \<rparr>"

section \<open>Properties\<close>

subsection \<open>Sequencing, indexing and loops\<close>

text \<open>The definitions a concrete call is evaluated with.\<close>

lemmas init_defs = init_mcmc_def only_nsamples_def check_seed_def check_pdf_proposal_type_def
  check_pdf_proposal_scale_def check_pdf_target_type_def check_algorithm_def check_pdf_target_def

lemmas base_defs = and_then_def getitem_def setitem_def getitem2_def setitem2_def zeros_def
  raw_steps_def transitions_def fit_row_def start_def accept_test_def np_normal_def np_uniform_def

lemma and_then_Inr_iff: "and_then m f = Inr y \<longleftrightarrow> (\<exists>x. m = Inr x \<and> f x = Inr y)"
  by (cases m) (simp_all add: and_then_def)

lemma getitem_Inr_iff: "getitem xs i = Inr v \<longleftrightarrow> i < length xs \<and> v = xs ! i"
  by (auto simp: getitem_def)

lemma setitem_Inr_iff: "setitem xs i v = Inr ys \<longleftrightarrow> i < length xs \<and> ys = xs[i := v]"
  by (auto simp: setitem_def)

lemma for_loop_append:
  "for_loop (xs @ ys) body s = and_then (for_loop xs body s) (for_loop ys body)"
proof (induction xs arbitrary: s)
  case Nil
  show ?case by (simp add: and_then_def)
next
  case (Cons i xs)
  show ?case by (cases "body i s") (simp_all add: and_then_def Cons.IH)
qed

lemma for_loop_upt_Suc:
  "a \<le> b \<Longrightarrow> for_loop [a..<Suc b] body s = and_then (for_loop [a..<b] body s) (body b)"
  by (simp add: for_loop_append and_then_def split: sum.splits)

text \<open>
  The invariant rule of a loop over \<open>[a..<b]\<close>: what holds of the state before the loop
  and is kept by every pass that does not raise holds when the loop returns.
\<close>

lemma for_loop_invariant:
  assumes "a \<le> b" and "for_loop [a..<b] body s = Inr t" and "P a s"
    and step: "\<And>i u v. a \<le> i \<Longrightarrow> i < b \<Longrightarrow> P i u \<Longrightarrow> body i u = Inr v \<Longrightarrow> P (Suc i) v"
  shows "P b t"
  using assms(1,2,4)
proof (induction b arbitrary: t rule: dec_induct)
  case base
  then show ?case using assms(3) by simp
next
  case (step n)
  have "and_then (for_loop [a..<n] body s) (body n) = Inr t"
    using step.prems(1) for_loop_upt_Suc [OF step.hyps(1), of body s] by simp
  then obtain u where
    u: "for_loop [a..<n] body s = Inr u" and v: "body n u = Inr t"
    by (auto simp: and_then_Inr_iff)
  have "P n u"
    by (rule step.IH [OF u]) (use step.prems(2) in auto)
  then show ?case
    using step.prems(2) [of n u t] step.hyps v by simp
qed

lemma index_below: "k < i \<Longrightarrow> j < d \<Longrightarrow> k * d + j < i * (d::nat)"
proof -
  assume "k < i" and "j < d"
  then have "k * d + j < Suc k * d" by simp
  also have "\<dots> \<le> i * d" using \<open>k < i\<close> by (intro mult_le_mono1) simp
  finally show ?thesis .
qed

subsection \<open>Monte Carlo simulation\<close>

lemma run_mcs_raises: "run_mcs e u c = Inl TypeError"
  by (simp add: run_mcs_def call_inv_cdf_def and_then_def)

text \<open>
  Claim C7. \<^verbatim>\<open>run_mcs\<close> calls \<^verbatim>\<open>inv_cdf\<close> with three arguments, and \<^verbatim>\<open>inv_cdf\<close> takes
  one: scenario 1 passes validation and then raises TypeError, whatever the draws and the
  environment, so no array is returned.
\<close>

theorem mcs_scenario1_raises:
  "init_mcs scenario1 =
     Inr \<lparr> mcs_dimension = 2, mcs_dist_type = [''Uniform'', ''Uniform''],
           mcs_dist_params = [[0, 1], [0, 1]], mcs_nsamples = 100 \<rparr> \<and>
   MCS e u scenario1 = Inl TypeError"
  by (simp add: MCS_def init_mcs_def scenario1_def broadcast_dist_def builtin_names_def
      and_then_def run_mcs_def call_inv_cdf_def)

subsection \<open>Latin hypercube sampling: the design\<close>

text \<open>
  The designs of \<^verbatim>\<open>_random\<close> and \<^verbatim>\<open>_centered\<close> are Latin: when the permutations are
  permutations of \<^verbatim>\<open>range(nsamples)\<close> and the uniform draws lie in \<open>[0, 1)\<close>, every bin of
  every column holds exactly one row.
\<close>

lemma length_set_column: "length (set_column s j column) = length s"
  by (simp add: set_column_def)

lemma set_column_nth:
  assumes "k < length s"
  shows "length (set_column s j column ! k) = length (s ! k)"
    and "j < length (s ! k) \<Longrightarrow> set_column s j column ! k ! j = column ! k"
    and "i \<noteq> j \<Longrightarrow> set_column s j column ! k ! i = s ! k ! i"
  using assms by (simp_all add: set_column_def)

lemma foldl_upt_Suc: "foldl f s [0..<Suc m] = f (foldl f s [0..<m]) m"
  by simp

lemma bins_nth:
  assumes "m < n"
  shows "bins_a n ! m = real m / real n" and "bins_b n ! m = real (m + 1) / real n"
  using assms by (simp_all add: bins_a_def bins_b_def cut_def nth_append del: upt_Suc)

lemma in_bin_unique:
  assumes "0 < n" and "in_bin n m v" and "in_bin n k v"
  shows "m = k"
proof -
  from assms have "real m / real n < real (k + 1) / real n" "real k / real n < real (m + 1) / real n"
    by (auto simp: in_bin_def)
  with assms(1) have "real m < real (k + 1)" "real k < real (m + 1)"
    by (simp_all add: divide_less_cancel)
  then show ?thesis by linarith
qed

lemma permutation_index:
  assumes "is_permutation n p" and "k < n"
  shows "\<exists>i<n. p ! i = k \<and> (\<forall>i'<n. p ! i' = k \<longrightarrow> i' = i)"
proof -
  from assms have "k \<in> set p" and len: "length p = n" and d: "distinct p"
    by (auto simp: is_permutation_def)
  then obtain i where i: "i < n" "p ! i = k"
    by (auto simp: in_set_conv_nth)
  moreover have "i' = i" if "i' < n" "p ! i' = k" for i'
    using that i len nth_eq_iff_index_eq [OF d, of i' i] by simp
  ultimately show ?thesis by blast
qed

lemma permutation_nth_less:
  assumes "is_permutation n p" and "i < n"
  shows "p ! i < n"
proof -
  from assms have "i < length p" and "set p = {..<n}"
    by (simp_all add: is_permutation_def)
  then have "p ! i \<in> {..<n}" using nth_mem by blast
  then show ?thesis by simp
qed

lemma one_per_binI:
  assumes "0 < n" and "is_permutation n p"
    and "\<And>i. i < n \<Longrightarrow> in_bin n (p ! i) (s ! i ! j)"
  shows "one_per_bin n s j"
  unfolding one_per_bin_def
proof (intro allI impI)
  fix k assume "k < n"
  from permutation_index [OF assms(2) this] obtain i where
    i: "i < n" "p ! i = k" and u: "\<forall>i'<n. p ! i' = k \<longrightarrow> i' = i" by blast
  have "in_bin n k (s ! i ! j)" using assms(3) [OF i(1)] i(2) by simp
  moreover have "i' = i" if "i' < n" "in_bin n k (s ! i' ! j)" for i'
  proof -
    have "p ! i' = k" using in_bin_unique [OF assms(1) assms(3) [OF that(1)] that(2)] .
    with u that(1) show ?thesis by simp
  qed
  ultimately show "\<exists>i<n. in_bin n k (s ! i ! j) \<and> (\<forall>i'<n. in_bin n k (s ! i' ! j) \<longrightarrow> i' = i)"
    using i(1) by blast
qed

lemma lhs_random_nth:
  assumes perm: "\<forall>j<d. is_permutation n (order r t j)"
    and "m \<le> d"
  defines "pre \<equiv> map (\<lambda>k. map (\<lambda>i. unit01 r t k i * (bins_b n ! k - bins_a n ! k) + bins_a n ! k)
                       [0..<d]) [0..<n]"
  defines "s \<equiv> foldl (\<lambda>s j. set_column s j (map (\<lambda>k. s ! (order r t j ! k) ! j) [0..<n]))
                 pre [0..<m]"
  shows "length s = n \<and> (\<forall>k<n. length (s ! k) = d \<and>
           (\<forall>j<d. s ! k ! j = (if j < m then pre ! (order r t j ! k) ! j else pre ! k ! j)))"
  using assms(2) unfolding s_def
proof (induction m)
  case 0
  show ?case by (simp add: pre_def)
next
  case (Suc m)
  define s0 where "s0 = foldl (\<lambda>s j. set_column s j (map (\<lambda>k. s ! (order r t j ! k) ! j) [0..<n]))
                 pre [0..<m]"
  from Suc have IH: "length s0 = n" "\<And>k. k < n \<Longrightarrow> length (s0 ! k) = d"
    "\<And>k j. k < n \<Longrightarrow> j < d \<Longrightarrow>
        s0 ! k ! j = (if j < m then pre ! (order r t j ! k) ! j else pre ! k ! j)"
    and m: "m < d"
    by (simp_all add: s0_def)
  define s1 where "s1 = set_column s0 m (map (\<lambda>k. s0 ! (order r t m ! k) ! m) [0..<n])"
  have s1: "foldl (\<lambda>s j. set_column s j (map (\<lambda>k. s ! (order r t j ! k) ! j) [0..<n]))
                 pre [0..<Suc m] = s1"
    unfolding foldl_upt_Suc s0_def [symmetric] s1_def ..
  have pm: "is_permutation n (order r t m)" using perm m by simp
  have "s1 ! k ! j = (if j < Suc m then pre ! (order r t j ! k) ! j else pre ! k ! j)"
    if "k < n" "j < d" for k j
  proof (cases "j = m")
    case True
    have "order r t m ! k < n" using permutation_nth_less [OF pm that(1)] .
    then have "s0 ! (order r t m ! k) ! m = pre ! (order r t m ! k) ! m"
      using IH(3) m by simp
    then show ?thesis
      using True that IH(1,2) m by (simp add: s1_def set_column_nth)
  next
    case False
    then show ?thesis
      using that IH by (simp add: s1_def set_column_nth)
  qed
  moreover have "length s1 = n" "\<And>k. k < n \<Longrightarrow> length (s1 ! k) = d"
    using IH(1,2) by (simp_all add: s1_def set_column_nth length_set_column)
  ultimately show ?case unfolding s1 by simp
qed

lemma in_bin_affine:
  assumes "0 < n" and "unit_draw u"
  shows "in_bin n m (u * (real (m + 1) / real n - real m / real n) + real m / real n)"
  using assms by (simp add: in_bin_def unit_draw_def field_simps)

lemma in_bin_center:
  assumes "0 < n"
  shows "in_bin n m ((real m / real n + real (m + 1) / real n) / 2)"
  using assms by (simp add: in_bin_def field_simps)

lemma lhs_random_one_per_bin:
  assumes "0 < n" and "j < d"
    and perm: "\<forall>j<d. is_permutation n (order r t j)"
    and unit: "\<forall>k i. unit_draw (unit01 r t k i)"
  shows "one_per_bin n (lhs_random r t n d) j"
proof (rule one_per_binI [OF assms(1)])
  show "is_permutation n (order r t j)" using perm assms(2) by simp
  fix i assume i: "i < n"
  define m where "m = order r t j ! i"
  have m: "m < n"
    unfolding m_def using permutation_nth_less perm assms(2) i by blast
  have "lhs_random r t n d ! i ! j =
          unit01 r t m j * (bins_b n ! m - bins_a n ! m) + bins_a n ! m"
    using lhs_random_nth [OF perm order_refl] i m assms(2)
    by (simp add: lhs_random_def Let_def m_def)
  then show "in_bin n (order r t j ! i) (lhs_random r t n d ! i ! j)"
    using in_bin_affine [OF assms(1), of "unit01 r t m j" m] unit m
    by (simp add: bins_nth m_def)
qed

lemma lhs_centered_nth:
  fixes n d m :: nat and r :: lhs_draws and t :: nat
  assumes "m \<le> d"
  defines "centers \<equiv> map2 (\<lambda>x y. (x + y) / 2) (bins_a n) (bins_b n)"
  defines "s \<equiv> foldl (\<lambda>s i. set_column s i (map (\<lambda>k. centers ! (order r t i ! k)) [0..<n]))
                 (zeros n d) [0..<m]"
  shows "length s = n \<and> (\<forall>k<n. length (s ! k) = d \<and>
           (\<forall>j<m. s ! k ! j = centers ! (order r t j ! k)))"
  using assms(1) unfolding s_def
proof (induction m)
  case 0
  show ?case by (simp add: zeros_def)
next
  case (Suc m)
  define s0 where "s0 = foldl (\<lambda>s i. set_column s i (map (\<lambda>k. centers ! (order r t i ! k)) [0..<n]))
                 (zeros n d) [0..<m]"
  from Suc have IH: "length s0 = n" "\<And>k. k < n \<Longrightarrow> length (s0 ! k) = d"
    "\<And>k j. k < n \<Longrightarrow> j < m \<Longrightarrow> s0 ! k ! j = centers ! (order r t j ! k)"
    and m: "m < d"
    by (simp_all add: s0_def)
  define s1 where "s1 = set_column s0 m (map (\<lambda>k. centers ! (order r t m ! k)) [0..<n])"
  have s1: "foldl (\<lambda>s i. set_column s i (map (\<lambda>k. centers ! (order r t i ! k)) [0..<n]))
                 (zeros n d) [0..<Suc m] = s1"
    unfolding foldl_upt_Suc s0_def [symmetric] s1_def ..
  have "s1 ! k ! j = centers ! (order r t j ! k)" if "k < n" "j < Suc m" for k j
  proof (cases "j = m")
    case True
    then show ?thesis
      using that IH(1,2) m by (simp add: s1_def set_column_nth)
  next
    case False
    with that have "j < m" by simp
    with False show ?thesis
      using that IH by (simp add: s1_def set_column_nth)
  qed
  moreover have "length s1 = n" "\<And>k. k < n \<Longrightarrow> length (s1 ! k) = d"
    using IH(1,2) by (simp_all add: s1_def set_column_nth length_set_column)
  ultimately show ?case unfolding s1 by simp
qed

lemma lhs_centered_one_per_bin:
  assumes "0 < n" and "j < d"
    and perm: "\<forall>j<d. is_permutation n (order r t j)"
  shows "one_per_bin n (lhs_centered r t n d) j"
proof (rule one_per_binI [OF assms(1)])
  show "is_permutation n (order r t j)" using perm assms(2) by simp
  fix i assume i: "i < n"
  define m where "m = order r t j ! i"
  have m: "m < n"
    unfolding m_def using permutation_nth_less perm assms(2) i by blast
  have len: "length (bins_a n) = n" "length (bins_b n) = n"
    by (simp_all add: bins_a_def bins_b_def cut_def del: upt_Suc)
  have "lhs_centered r t n d ! i ! j = map2 (\<lambda>x y. (x + y) / 2) (bins_a n) (bins_b n) ! m"
    using lhs_centered_nth [where m = d and d = d and n = n and r = r and t = t, OF order_refl]
      i assms(2)
    by (simp add: lhs_centered_def Let_def m_def)
  also have "\<dots> = (real m / real n + real (m + 1) / real n) / 2"
    using m len by (simp add: bins_nth)
  finally have "lhs_centered r t n d ! i ! j = (real m / real n + real (m + 1) / real n) / 2" .
  then show "in_bin n (order r t j ! i) (lhs_centered r t n d ! i ! j)"
    unfolding m_def [symmetric] by (simp only: in_bin_center [OF assms(1)])
qed

subsection \<open>Latin hypercube sampling: the run\<close>

lemma inv_cdf_name:
  "call_inv_cdf e [Names (PyStr (ch # s))] =
     Inl (case custom_dist e of None \<Rightarrow> NotImplementedError
          | Some table \<Rightarrow> (case table [ch] of None \<Rightarrow> AttributeError | Some f \<Rightarrow> TypeError))"
  by (simp add: call_inv_cdf_def resolve_icdf_def and_then_def split: option.splits)

lemma lhs_transform_raises:
  assumes "getitem (lhs_dist_type c) j = Inr (ch # s)"
  shows "lhs_transform e c smp i j out =
     Inl (case custom_dist e of None \<Rightarrow> NotImplementedError
          | Some table \<Rightarrow> (case table [ch] of None \<Rightarrow> AttributeError | Some f \<Rightarrow> TypeError))"
  using assms by (simp add: lhs_transform_def inv_cdf_name and_then_def)

text \<open>
  Claim C10. \<^verbatim>\<open>run_lhs\<close> builds the design and then transforms it entry by entry, calling
  \<^verbatim>\<open>inv_cdf\<close> on the name \<^verbatim>\<open>self.dist_type[j]\<close>, a string: \<^verbatim>\<open>inv_cdf\<close> walks through its
  characters and raises at the first one. So the call with one sample in one dimension, under
  \<^verbatim>\<open>'random'\<close> and under \<^verbatim>\<open>'centered'\<close>, raises (NotImplementedError without a file
  \<^verbatim>\<open>custom_dist.py\<close>) and returns no points, whatever the draws.
\<close>

theorem lhs_run_raises:
  "LHS e ms r (lhs_uniform ''random'' 1 1) =
     Inl (case custom_dist e of None \<Rightarrow> NotImplementedError
          | Some table \<Rightarrow> (case table ''U'' of None \<Rightarrow> AttributeError | Some f \<Rightarrow> TypeError)) \<and>
   LHS e ms r (lhs_uniform ''centered'' 1 1) =
     Inl (case custom_dist e of None \<Rightarrow> NotImplementedError
          | Some table \<Rightarrow> (case table ''U'' of None \<Rightarrow> AttributeError | Some f \<Rightarrow> TypeError))"
  by (simp add: LHS_def init_lhs_def lhs_uniform_def broadcast_dist_def lhs_metrics_def
      and_then_def run_lhs_def lhs_random_def lhs_centered_def set_column_def zeros_def
      lhs_transform_def getitem_def call_inv_cdf_def resolve_icdf_def Let_def
      split: option.splits)

subsection \<open>Strata: the full factorial grid\<close>

lemma length_fullfact_columns: "length (fullfact_columns ls lr rr) = length ls"
  by (induction ls arbitrary: lr rr) (simp_all add: Let_def)

lemma fullfact_columns_nth:
  assumes "\<forall>l\<in>set ls. 0 < l" and "j < length ls"
  shows "fullfact_columns ls lr (prod_list ls) ! j =
           concat (replicate (prod_list (drop (Suc j) ls))
             (concat (map (\<lambda>v. replicate (lr * prod_list (take j ls)) v) [0..<ls ! j])))"
  using assms
proof (induction ls arbitrary: lr j)
  case Nil
  then show ?case by simp
next
  case (Cons l ls)
  have l: "0 < l" using Cons.prems(1) by simp
  then have d: "l * prod_list ls div l = prod_list ls" by simp
  show ?case
  proof (cases j)
    case 0
    then show ?thesis using d by (simp add: Let_def)
  next
    case (Suc j')
    with Cons.prems have "j' < length ls" and "\<forall>l\<in>set ls. 0 < l" by simp_all
    from Cons.IH [OF this(2,1), of "lr * l"] show ?thesis
      using d Suc by (simp add: Let_def mult.assoc)
  qed
qed

lemma length_concat_replicate: "length (concat (replicate a xs)) = a * length xs"
  by (induction a) simp_all

lemma length_concat_levels: "length (concat (map (\<lambda>v. replicate b v) [0..<c])) = c * b"
  by (induction c) simp_all

lemma prod_list_split:
  assumes "j < length ns"
  shows "prod_list ns = prod_list (take j ns) * (ns ! j * prod_list (drop (Suc j) ns))"
proof -
  have "ns = take j ns @ ns ! j # drop (Suc j) ns"
    using assms by (rule id_take_nth_drop)
  then have "prod_list ns = prod_list (take j ns @ ns ! j # drop (Suc j) ns)" by simp
  then show ?thesis by (simp only: prod_list.append prod_list.Cons)
qed

lemma length_level_column:
  assumes "j < length (ns :: nat list)"
  shows "length (level_column ns j) = prod_list ns"
  using prod_list_split [OF assms]
  by (simp add: level_column_def length_concat_replicate length_concat_levels mult.commute
      mult.left_commute)

lemma fullfact_columns_level:
  assumes "\<forall>l\<in>set ns. 0 < l" and "j < length ns"
  shows "fullfact_columns ns 1 (prod_list ns) ! j = level_column ns j"
  using fullfact_columns_nth [OF assms, of 1] by (simp add: level_column_def)

lemma fullfact_levels:
  assumes "ns \<noteq> []" and "\<forall>l\<in>set ns. 0 < l"
  shows "fullfact ns =
           Inr (map (\<lambda>k. map (\<lambda>j. real (level_column ns j ! k)) [0..<length ns])
                  [0..<prod_list ns])"
proof -
  define cols where "cols = fullfact_columns ns 1 (prod_list ns)"
  have cols: "cols = map (level_column ns) [0..<length ns]"
  proof (rule nth_equalityI)
    show "length cols = length (map (level_column ns) [0..<length ns])"
      by (simp add: cols_def length_fullfact_columns)
    fix i assume "i < length cols"
    then have i: "i < length ns" by (simp add: cols_def length_fullfact_columns)
    from fullfact_columns_level [OF assms(2) i] i
    show "cols ! i = map (level_column ns) [0..<length ns] ! i"
      by (simp add: cols_def)
  qed
  have ok: "\<not> list_ex (\<lambda>rng. length rng \<noteq> prod_list ns \<and> length rng \<noteq> 1) cols"
    by (auto simp: cols list_ex_iff length_level_column)
  have "map (\<lambda>rng. real (if length rng = prod_list ns then rng ! k else rng ! 0)) cols
          = map (\<lambda>j. real (level_column ns j ! k)) [0..<length ns]" for k
    by (simp add: cols length_level_column comp_def)
  with ok assms(1) show ?thesis
    unfolding fullfact_def Let_def cols_def [symmetric] by simp
qed

lemma prod_list_reciprocal: "prod_list (map (\<lambda>n. 1 / real n) ns) = 1 / real (prod_list ns)"
  by (induction ns) simp_all

lemma sum_list_replicate_real: "sum_list (replicate m (c::real)) = real m * c"
  by (induction m) (simp_all add: algebra_simps)

lemma map2_divide_ones:
  "map2 (\<lambda>v n. v / real n) (replicate (length ns) 1) ns = map (\<lambda>n. 1 / real n) ns"
  by (rule nth_equalityI) simp_all

lemma map2_divide_levels:
  "map2 (\<lambda>v n. v / real n) (map f [0..<length ns]) ns
     = map (\<lambda>j. f j / real (ns ! j)) [0..<length ns]"
  by (rule nth_equalityI) simp_all

lemma Strata_levels:
  assumes "ns \<noteq> []" and "\<forall>l\<in>set ns. 0 < l"
  shows "Strata ns =
     Inr \<lparr> origins = map (\<lambda>k. map (\<lambda>j. real (level_column ns j ! k) / real (ns ! j))
                           [0..<length ns]) [0..<prod_list ns],
           widths = replicate (prod_list ns) (map (\<lambda>n. 1 / real n) ns),
           weights = replicate (prod_list ns) (1 / real (prod_list ns)) \<rparr>"
  by (simp add: Strata_def fullfact_levels [OF assms] and_then_def Let_def comp_def
      map2_divide_levels map2_divide_ones prod_list_reciprocal map_replicate_const)

text \<open>
  Claim C8. For every strata-count vector that is not empty and whose counts are positive,
  the construction returns \<open>prod nstrata\<close> cells; the origins in dimension \<open>j\<close> are, cell by
  cell, the levels of the column the specification describes (each level repeated
  \<open>product(nstrata[0..j-1])\<close> times, the block tiled \<open>product(nstrata[j+1..])\<close> times)
  divided by \<open>nstrata\<^sub>j\<close>; every cell has the width \<open>1 / nstrata\<^sub>j\<close> in dimension \<open>j\<close>; the
  weight of a cell is the product of its widths; and the weights sum to 1, which is within
  1e-5 of 1.
\<close>

theorem strata_full_factorial:
  assumes "nstrata \<noteq> []" and "\<forall>n\<in>set nstrata. 0 < n"
  shows "\<exists>s. Strata nstrata = Inr s \<and>
     length (origins s) = prod_list nstrata \<and>
     length (widths s) = prod_list nstrata \<and>
     length (weights s) = prod_list nstrata \<and>
     (\<forall>j<length nstrata.
        map (\<lambda>row. row ! j) (origins s)
          = map (\<lambda>level. real level / real (nstrata ! j)) (level_column nstrata j)) \<and>
     (\<forall>k<prod_list nstrata.
        length (origins s ! k) = length nstrata \<and>
        widths s ! k = map (\<lambda>n. 1 / real n) nstrata \<and>
        weights s ! k = prod_list (widths s ! k)) \<and>
     sum_list (weights s) = 1 \<and>
     \<bar>sum_list (weights s) - 1\<bar> \<le> 1 / 100000"
proof -
  define s where "s = \<lparr> origins = map (\<lambda>k. map (\<lambda>j. real (level_column nstrata j ! k) / real (nstrata ! j))
                           [0..<length nstrata]) [0..<prod_list nstrata],
           widths = replicate (prod_list nstrata) (map (\<lambda>n. 1 / real n) nstrata),
           weights = replicate (prod_list nstrata) (1 / real (prod_list nstrata)) \<rparr>"
  have s: "Strata nstrata = Inr s"
    unfolding s_def by (rule Strata_levels [OF assms])
  have pos: "0 < prod_list nstrata"
    using assms(2) by (induction nstrata) simp_all
  have col: "map (\<lambda>row. row ! j) (origins s)
          = map (\<lambda>level. real level / real (nstrata ! j)) (level_column nstrata j)"
    if "j < length nstrata" for j
    by (rule nth_equalityI) (simp_all add: s_def length_level_column that)
  have row: "length (origins s ! k) = length nstrata \<and>
        widths s ! k = map (\<lambda>n. 1 / real n) nstrata \<and>
        weights s ! k = prod_list (widths s ! k)" if "k < prod_list nstrata" for k
    using that by (simp add: s_def prod_list_reciprocal)
  have total: "sum_list (weights s) = 1"
    using pos by (simp add: s_def sum_list_replicate_real)
  show ?thesis
    using s col row total by (intro exI [of _ s]) (simp add: s_def)
qed

text \<open>
  End-to-end scenario 4 of the specification, \<open>nstrata = [2, 2]\<close>: the four cells, with
  dimension 0 varying fastest, and the theorem at that vector.
\<close>

lemma Strata_2_2:
  "Strata [2, 2] =
     Inr \<lparr> origins = [[0, 0], [1 / 2, 0], [0, 1 / 2], [1 / 2, 1 / 2]],
           widths = [[1 / 2, 1 / 2], [1 / 2, 1 / 2], [1 / 2, 1 / 2], [1 / 2, 1 / 2]],
           weights = [1 / 4, 1 / 4, 1 / 4, 1 / 4] \<rparr>"
proof -
  have up: "[0..<4] = [0, 1, 2, 3]" "[0..<2] = [0, Suc 0]"
    by (simp_all add: upt_conv_Cons)
  have p: "prod_list [2, 2 :: nat] = 4" by simp
  have r4: "replicate 4 x = [x, x, x, x]" for x :: 'a
    by (simp add: eval_nat_numeral)
  have c: "level_column [2, 2] 0 = [0, 1, 0, 1]" "level_column [2, 2] (Suc 0) = [0, 0, 1, 1]"
    by (simp_all add: level_column_def up numeral_2_eq_2)
  have "Strata [2, 2] =
     Inr \<lparr> origins = map (\<lambda>k. map (\<lambda>j. real (level_column [2, 2] j ! k) / real ([2, 2] ! j))
                           [0..<length [2, 2 :: nat]]) [0..<prod_list [2, 2]],
           widths = replicate (prod_list [2, 2]) (map (\<lambda>n. 1 / real n) [2, 2]),
           weights = replicate (prod_list [2, 2]) (1 / real (prod_list [2, 2 :: nat])) \<rparr>"
    by (rule Strata_levels) simp_all
  then show ?thesis
    unfolding p by (simp add: c up r4)
qed

theorem strata_full_factorial_witness:
  "\<exists>s. Strata [2, 2] = Inr s \<and>
        length (origins s) = 4 \<and>
        map (\<lambda>row. row ! 0) (origins s) = [0, 1 / 2, 0, 1 / 2] \<and>
        map (\<lambda>row. row ! 1) (origins s) = [0, 0, 1 / 2, 1 / 2] \<and>
        widths s ! 3 = [1 / 2, 1 / 2] \<and>
        sum_list (weights s) = 1"
proof -
  have ne: "[2, 2 :: nat] \<noteq> []" by simp
  have pos: "\<forall>n\<in>set [2, 2 :: nat]. 0 < n" by simp
  from strata_full_factorial [OF ne pos] obtain s where
    s: "Strata [2, 2] = Inr s"
    and n: "length (origins s) = prod_list [2, 2]"
    and cols: "\<forall>j<length [2, 2 :: nat].
        map (\<lambda>row. row ! j) (origins s)
          = map (\<lambda>level. real level / real ([2, 2] ! j)) (level_column [2, 2] j)"
    and rows: "\<forall>k<prod_list [2, 2 :: nat].
        length (origins s ! k) = length [2, 2 :: nat] \<and>
        widths s ! k = map (\<lambda>n. 1 / real n) [2, 2] \<and>
        weights s ! k = prod_list (widths s ! k)"
    and total: "sum_list (weights s) = 1"
    by blast
  from cols have "map (\<lambda>row. row ! 0) (origins s)
          = map (\<lambda>level. real level / real ([2, 2] ! 0)) (level_column [2, 2] 0)"
    and "map (\<lambda>row. row ! 1) (origins s)
          = map (\<lambda>level. real level / real ([2, 2] ! 1)) (level_column [2, 2] 1)"
    by simp_all
  then have c: "map (\<lambda>row. row ! 0) (origins s) = [0, 1 / 2, 0, 1 / 2]"
      "map (\<lambda>row. row ! 1) (origins s) = [0, 0, 1 / 2, 1 / 2]"
    by (simp_all add: level_column_def eval_nat_numeral)
  from rows have "widths s ! 3 = [1 / 2, 1 / 2]" by simp
  with s n c total show ?thesis
    by (intro exI [of _ s]) simp
qed

subsection \<open>Stratified and partially stratified sampling\<close>

text \<open>
  \<^verbatim>\<open>STS\<close> on one dimension with two strata: one point in each half, and its image under the
  quantile function of the uniform distribution, row by row.
\<close>

lemma sts_two_strata:
  "STS e u \<lparr> s_dimension = None, s_dist_type = Some (PyList [''Uniform'']),
             s_dist_params = Some (ParamLists [[0, 1]]), s_sts_design = Some [2] \<rparr> =
     Inr ([[u 0 0 / 2], [1 / 2 + u 1 0 / 2]],
          [[ppf e ''uniform'' [0, 1] (u 0 0 / 2)],
           [ppf e ''uniform'' [0, 1] (1 / 2 + u 1 0 / 2)]])"
  by (simp add: STS_def init_sts_def Strata_def fullfact_def and_then_def Let_def
      call_inv_cdf_def resolve_icdf_def builtin_icdf_def run_sts_def sts_entry_def
      getitem_def getitem2_def setitem_def setitem2_def zeros_def np_uniform_def
      upt_conv_Cons numeral_2_eq_2)

text \<open>
  The keyword \<^verbatim>\<open>pss_\<close> is not a parameter of \<^verbatim>\<open>STS.__init__\<close>, so every pass of the loop
  of \<^verbatim>\<open>run_pss\<close> raises TypeError at the call of \<^verbatim>\<open>STS\<close>.
\<close>

lemma call_STS_pss_keyword:
  "call_STS e u [''dist_type'', ''dist_params'', ''sts_design'', ''pss_''] a = Inl TypeError"
  by (simp add: call_STS_def sts_parameters_def)

lemma pss_block_raises:
  assumes "i < length (pss_strata c)" and "i < length (pss_design c)"
  shows "pss_block e r c i st = Inl TypeError"
  using assms
  by (cases st) (simp add: pss_block_def getitem_def and_then_def call_STS_pss_keyword Let_def)

text \<open>
  Past that call the two arrays are permuted by two draws of \<^verbatim>\<open>np.random.permutation\<close>,
  one for each array: with the permutations \<open>[0, 1]\<close> and \<open>[1, 0]\<close> the rows of a block that
  corresponded before no longer do.
\<close>

lemma pss_permutations_apart:
  "permute_block [[1 / 4], [3 / 4]] 0 1 [0, 1] = [[1 / 4], [3 / 4]] \<and>
   permute_block [[1 / 4], [3 / 4]] 0 1 [1, 0] = [[3 / 4], [1 / 4]]"
  by (simp add: permute_block_def upt_conv_Cons)

text \<open>
  Claim C9. The call of \<^verbatim>\<open>PSS\<close> with one block of one dimension and two strata passes
  validation and raises TypeError in the first pass of the loop, whatever the draws and the
  environment: no pair of arrays is returned.
\<close>

theorem pss_run_raises: "PSS e r pss_example = Inl TypeError"
  by (simp add: PSS_def pss_example_def init_pss_def builtin_names_def broadcast_dist_def
      and_then_def getitem_def run_pss_def pss_block_def call_STS_pss_keyword Let_def)

subsection \<open>MCMC: the configuration that validation returns\<close>

lemma init_mcmcE:
  assumes "init_mcmc fk a = Inr c"
  obtains ns sd ptype pscale ttype alg where
    "a_nsamples a = Some ns"
    "check_seed (a_algorithm a) (dimension c) (a_seed a) = Inr sd"
    "check_pdf_proposal_type (a_algorithm a) (dimension c) (a_pdf_proposal_type a) = Inr ptype"
    "check_pdf_proposal_scale (a_algorithm a) (dimension c) (a_pdf_proposal_scale a) = Inr pscale"
    "check_pdf_target_type (a_algorithm a) (a_pdf_target_type a) = Inr ttype"
    "check_algorithm (a_algorithm a) = Inr alg"
    "seed c = sd" "pdf_proposal_type c = ptype" "pdf_proposal_scale c = pscale"
    "pdf_target_type c = ttype" "algorithm c = alg" "nsamples c = ns"
proof -
  define d where "d = (case a_dimension a of None \<Rightarrow> 1 | Some n \<Rightarrow> n)"
  note defs = init_mcmc_def Let_def d_def [symmetric]
  from assms obtain ns where ns: "a_nsamples a = Some ns"
    by (cases "a_nsamples a") (simp_all add: defs)
  from assms ns obtain sd where sd: "check_seed (a_algorithm a) d (a_seed a) = Inr sd"
    by (cases "check_seed (a_algorithm a) d (a_seed a)") (simp_all add: defs)
  from assms ns sd obtain ptype where
    pt: "check_pdf_proposal_type (a_algorithm a) d (a_pdf_proposal_type a) = Inr ptype"
    by (cases "check_pdf_proposal_type (a_algorithm a) d (a_pdf_proposal_type a)")
      (simp_all add: defs)
  from assms ns sd pt obtain pscale where
    ps: "check_pdf_proposal_scale (a_algorithm a) d (a_pdf_proposal_scale a) = Inr pscale"
    by (cases "check_pdf_proposal_scale (a_algorithm a) d (a_pdf_proposal_scale a)")
      (simp_all add: defs)
  from assms ns sd pt ps obtain ttype where
    tt: "check_pdf_target_type (a_algorithm a) (a_pdf_target_type a) = Inr ttype"
    by (cases "check_pdf_target_type (a_algorithm a) (a_pdf_target_type a)")
      (simp_all add: defs)
  from assms ns sd pt ps tt obtain alg where
    al: "check_algorithm (a_algorithm a) = Inr alg"
    by (cases "check_algorithm (a_algorithm a)") (simp_all add: defs)
  from assms ns sd pt ps tt al have
    "dimension c = d" "seed c = sd" "pdf_proposal_type c = ptype" "pdf_proposal_scale c = pscale"
    "pdf_target_type c = ttype" "algorithm c = alg" "nsamples c = ns"
    by (auto simp: defs)
  with ns sd pt ps tt al show thesis
    by (intro that [of ns sd ptype pscale ttype alg]) simp_all
qed

lemma init_mcmc_target_type:
  assumes "init_mcmc fk a = Inr c"
  shows "pdf_target_type c = Some ''marginal_pdf'' \<or> pdf_target_type c = Some ''joint_pdf''"
proof -
  from assms obtain ttype where "check_pdf_target_type (a_algorithm a) (a_pdf_target_type a) = Inr ttype"
    and "pdf_target_type c = ttype"
    by (rule init_mcmcE)
  then show ?thesis
    by (auto simp: check_pdf_target_type_def Let_def split: if_splits)
qed



subsection \<open>MCMC: the raw chain of MH and MMH\<close>

lemma run_chain_bound: "run_chain c r = chain_after c r (loop_bound c)"
  by (simp add: run_chain_def chain_after_def loop_bound_def mh_chain_def mmh_chain_def
      stretch_chain_def)

lemma mh_step_inv:
  assumes "mh_inv N s0 i st" and "mh_step c f r i st = Inr st'"
  shows "mh_inv N s0 (Suc i) st'"
proof -
  from assms(2) obtain x y acc where
    i: "Suc i < length (samples st)" and x: "x = samples st ! i"
    and st': "st' = st \<lparr> samples := (samples st)[Suc i := (if acc then y else x)],
                         candidate := Some y, trace := trace st @ [(y, acc)] \<rparr>"
    by (auto simp: mh_step_def and_then_Inr_iff getitem_Inr_iff setitem_Inr_iff
        split: option.splits)
  have len: "length (trace st) = i" using assms(1) by (simp add: mh_inv_def)
  have old: "write_rule st' k" if "k < i" for k
    using that assms(1) len by (simp add: mh_inv_def write_rule_def st' nth_append)
  have new: "write_rule st' i"
    using i len by (simp add: write_rule_def st' x nth_append)
  have "write_rule st' k" if "k < Suc i" for k
    using that old new by (cases "k = i") auto
  then show ?thesis
    using assms(1) i by (simp add: mh_inv_def st')
qed

lemma mmh_marginal_step_inv:
  assumes "marginal_inv i u j st" and "mmh_marginal_step c r i j st = Inr st'"
  shows "marginal_inv i u (Suc j) st'"
proof -
  from assms(2) obtain y acc where
    i: "Suc i < length (samples st)" and j: "j < length (samples st ! Suc i)"
    and st': "st' = st \<lparr> samples := (samples st)[Suc i := (samples st ! Suc i)
                            [j := (if acc then hd y else samples st ! i ! j)]],
                         candidate := Some y, trace := trace st @ [(y, acc)] \<rparr>"
    by (auto simp: mmh_marginal_step_def and_then_Inr_iff getitem_Inr_iff setitem_Inr_iff
        getitem2_def setitem2_def split: option.splits)
  have tl: "length (trace st) = length (trace u) + j"
    and same: "samples st ! i = samples u ! i"
    using assms(1) by (simp_all add: marginal_inv_def)
  have old: "samples st' ! Suc i ! k =
        (if snd (trace st' ! (length (trace u) + k)) then hd (fst (trace st' ! (length (trace u) + k)))
         else samples u ! i ! k)" if "k < j" for k
    using that assms(1) i tl by (simp add: marginal_inv_def st' nth_append)
  have new: "samples st' ! Suc i ! j =
        (if snd (trace st' ! (length (trace u) + j)) then hd (fst (trace st' ! (length (trace u) + j)))
         else samples u ! i ! j)"
    using i j tl same by (simp add: st' nth_append)
  have all: "samples st' ! Suc i ! k =
        (if snd (trace st' ! (length (trace u) + k)) then hd (fst (trace st' ! (length (trace u) + k)))
         else samples u ! i ! k)" if "k < Suc j" for k
    using that old new by (cases "k = j") auto
  have rest: "length (samples st') = length (samples u)"
      "\<forall>m. m \<noteq> Suc i \<longrightarrow> samples st' ! m = samples u ! m"
      "length (trace st') = length (trace u) + Suc j"
      "\<forall>m<length (trace u). trace st' ! m = trace u ! m"
    using assms(1) by (simp_all add: marginal_inv_def st' nth_append)
  show ?thesis
    unfolding marginal_inv_def using rest all by blast
qed

lemma mmh_marginal_outer_inv:
  assumes inv: "mmh_inv N d s0 i u"
    and loop: "for_loop [0..<d] (mmh_marginal_step c r i) u = Inr v"
  shows "mmh_inv N d s0 (Suc i) v"
proof -
  have "marginal_inv i u 0 u" by (simp add: marginal_inv_def)
  then have m: "marginal_inv i u d v"
    using for_loop_invariant [where P = "marginal_inv i u", OF _ loop] mmh_marginal_step_inv
    by blast
  have tl: "length (trace u) = i * d" using inv by (simp add: mmh_inv_def)
  have old: "coord_rule d v k j" if "k < i" "j < d" for k j
  proof -
    have "coord_rule d u k j" using inv that by (simp add: mmh_inv_def)
    moreover have "k * d + j < length (trace u)" using that tl index_below by simp
    ultimately show ?thesis using m that by (simp add: coord_rule_def marginal_inv_def)
  qed
  have new: "coord_rule d v i j" if "j < d" for j
    using m that tl by (simp add: coord_rule_def marginal_inv_def)
  have "coord_rule d v k j" if "k < Suc i" "j < d" for k j
    using that old new by (cases "k = i") auto
  then show ?thesis
    using inv m tl by (simp add: mmh_inv_def marginal_inv_def)
qed

lemma mmh_joint_stepE:
  assumes "mmh_joint_step c f r i j st = Inr st'"
  obtains cj acc where "samples st' = samples st"
    and "trace st' = trace st @ [([cj], acc)]"
    and "current st' = (if acc then (current st)[j := cj] else current st)"
    and "acc \<Longrightarrow> j < length (current st)"
proof -
  from assms obtain cand acc cj where
    rest: "(if acc then
         and_then (setitem (current st) j cj) (\<lambda>cur.
           Inr (st \<lparr> candidate := Some cand, current := cur,
                     trace := trace st @ [([cj], acc)] \<rparr>))
       else
         and_then (getitem (current st) j) (\<lambda>v.
           Inr (st \<lparr> candidate := Some (cand[j := v]),
                     trace := trace st @ [([cj], acc)] \<rparr>))) = Inr st'"
    unfolding mmh_joint_step_def and_then_Inr_iff by blast
  show thesis
  proof (cases acc)
    case True
    with rest show thesis
      by (intro that [of cj acc]) (auto simp: and_then_Inr_iff setitem_Inr_iff)
  next
    case False
    with rest show thesis
      by (intro that [of cj acc]) (auto simp: and_then_Inr_iff getitem_Inr_iff)
  qed
qed

lemma mmh_joint_step_inv:
  assumes "joint_inv x u j st" and "mmh_joint_step c f r i j st = Inr st'"
  shows "joint_inv x u (Suc j) st'"
proof -
  from assms(2) obtain cj acc where
    smp: "samples st' = samples st"
    and tr: "trace st' = trace st @ [([cj], acc)]"
    and cur: "current st' = (if acc then (current st)[j := cj] else current st)"
    and j: "acc \<longrightarrow> j < length (current st)"
    by (rule mmh_joint_stepE) blast
  note st' = smp tr cur
  have tl: "length (trace st) = length (trace u) + j"
    and here: "current st ! j = x ! j"
    using assms(1) by (simp_all add: joint_inv_def)
  have old: "current st' ! k =
        (if snd (trace st' ! (length (trace u) + k)) then hd (fst (trace st' ! (length (trace u) + k)))
         else x ! k)" if "k < j" for k
    using that assms(1) tl by (simp add: joint_inv_def st' nth_append)
  have new: "current st' ! j =
        (if snd (trace st' ! (length (trace u) + j)) then hd (fst (trace st' ! (length (trace u) + j)))
         else x ! j)"
    using j tl here by (simp add: st' nth_append)
  have all: "current st' ! k =
        (if snd (trace st' ! (length (trace u) + k)) then hd (fst (trace st' ! (length (trace u) + k)))
         else x ! k)" if "k < Suc j" for k
    using that old new by (cases "k = j") auto
  have rest: "samples st' = samples u"
      "length (trace st') = length (trace u) + Suc j"
      "\<forall>m<length (trace u). trace st' ! m = trace u ! m"
      "\<forall>k\<ge>Suc j. current st' ! k = x ! k"
    using assms(1) by (simp_all add: joint_inv_def st' nth_append)
  show ?thesis
    unfolding joint_inv_def using rest all by blast
qed

lemma mmh_joint_outer_inv:
  assumes inv: "mmh_inv N (dimension c) s0 i u"
    and out: "mmh_joint_outer c f r i u = Inr v"
  shows "mmh_inv N (dimension c) s0 (Suc i) v"
proof -
  define d where "d = dimension c"
  define x where "x = samples u ! i"
  define u0 where "u0 = u \<lparr> candidate := Some x, current := x \<rparr>"
  from out obtain w where
    loop: "for_loop [0..<d] (mmh_joint_step c f r i) u0 = Inr w"
    and i: "Suc i < length (samples w)"
    and v: "v = w \<lparr> samples := (samples w)[Suc i := current w] \<rparr>"
    by (auto simp: mmh_joint_outer_def and_then_Inr_iff getitem_Inr_iff setitem_Inr_iff
        d_def x_def u0_def)
  have "joint_inv x u0 0 u0" by (simp add: joint_inv_def u0_def)
  then have m: "joint_inv x u0 d w"
    using for_loop_invariant [where P = "joint_inv x u0", OF _ loop] mmh_joint_step_inv
    by blast
  have tl: "length (trace u) = i * d" using inv by (simp add: mmh_inv_def d_def)
  have sw: "samples w = samples u" and tu: "trace u0 = trace u"
    using m by (simp_all add: joint_inv_def u0_def)
  have old: "coord_rule d v k j" if "k < i" "j < d" for k j
  proof -
    have "coord_rule d u k j" using inv that by (simp add: mmh_inv_def d_def)
    moreover have "k * d + j < length (trace u)" using that tl index_below by simp
    ultimately show ?thesis
      using m that sw tu by (simp add: coord_rule_def joint_inv_def v)
  qed
  have new: "coord_rule d v i j" if "j < d" for j
    using m that tl i sw tu by (simp add: coord_rule_def joint_inv_def v x_def)
  have "coord_rule d v k j" if "k < Suc i" "j < d" for k j
    using that old new by (cases "k = i") auto
  then show ?thesis
    using inv m tl i sw tu by (simp add: mmh_inv_def joint_inv_def v d_def)
qed

lemma start_inv:
  assumes "getitem (zeros N d) 0 = Inr z"
  shows "mh_inv N s0 0 (start ((zeros N d)[0 := s0]))"
    and "mmh_inv N d s0 0 (start ((zeros N d)[0 := s0]))"
  using assms by (simp_all add: mh_inv_def mmh_inv_def start_def zeros_def getitem_Inr_iff)

lemma mh_steps_inv:
  assumes "mh_steps c r m = Inr st"
  obtains s0 where "broadcast_row (dimension c) (seed c) = Inr s0"
    and "mh_inv (raw_steps c) s0 m st"
proof -
  from assms obtain z s0 f where
    z: "getitem (zeros (raw_steps c) (dimension c)) 0 = Inr z"
    and s0: "broadcast_row (dimension c) (seed c) = Inr s0"
    and loop: "for_loop [0..<m] (mh_step c f r)
                 (start ((zeros (raw_steps c) (dimension c))[0 := s0])) = Inr st"
    unfolding mh_steps_def and_then_Inr_iff by blast
  have "mh_inv (raw_steps c) s0 m st"
    using for_loop_invariant [where P = "mh_inv (raw_steps c) s0", OF _ loop start_inv(1) [OF z]]
      mh_step_inv by blast
  with s0 show thesis by (rule that)
qed

lemma mmh_steps_inv:
  assumes "mmh_steps c r m = Inr st"
    and "pdf_target_type c = Some ''marginal_pdf'' \<or> pdf_target_type c = Some ''joint_pdf''"
  obtains s0 where "broadcast_row (dimension c) (seed c) = Inr s0"
    and "mmh_inv (raw_steps c) (dimension c) s0 m st"
proof -
  define st0 where "st0 s = start ((zeros (raw_steps c) (dimension c))[0 := s])" for s
  from assms(1) obtain z s0 where
    z: "getitem (zeros (raw_steps c) (dimension c)) 0 = Inr z"
    and s0: "broadcast_row (dimension c) (seed c) = Inr s0"
    and rest: "(if pdf_target_type c = Some ''marginal_pdf'' then
         for_loop [0..<m]
           (\<lambda>i. for_loop [0..<dimension c] (mmh_marginal_step c r i)) (st0 s0)
       else if pdf_target_type c = Some ''joint_pdf'' then
         and_then (getitem (pdf_target c) 0) (\<lambda>pdf_fn.
           for_loop [0..<m] (mmh_joint_outer c pdf_fn r) (st0 s0))
       else Inr (st0 s0)) = Inr st"
    unfolding mmh_steps_def and_then_Inr_iff Let_def st0_def by blast
  have init: "mmh_inv (raw_steps c) (dimension c) s0 0 (st0 s0)"
    unfolding st0_def by (rule start_inv(2) [OF z])
  have "mmh_inv (raw_steps c) (dimension c) s0 m st"
  proof (cases "pdf_target_type c = Some ''marginal_pdf''")
    case True
    with rest have loop: "for_loop [0..<m]
           (\<lambda>i. for_loop [0..<dimension c] (mmh_marginal_step c r i)) (st0 s0) = Inr st"
      by simp
    show ?thesis
      using for_loop_invariant [where P = "mmh_inv (raw_steps c) (dimension c) s0", OF _ loop init]
        mmh_marginal_outer_inv by blast
  next
    case False
    with assms(2) rest obtain f where
      loop: "for_loop [0..<m] (mmh_joint_outer c f r) (st0 s0) = Inr st"
      by (auto simp: and_then_Inr_iff)
    show ?thesis
      using for_loop_invariant [where P = "mmh_inv (raw_steps c) (dimension c) s0", OF _ loop init]
        mmh_joint_outer_inv by blast
  qed
  with s0 show thesis by (rule that)
qed





subsection \<open>MCMC validation: the defaults\<close>

text \<open>
  The target type is checked before the default of the algorithm is resolved, so a call
  that omits both never passes validation; and for Stretch the length test reads the zero
  vector that has replaced an omitted seed, whereas a supplied seed is tested on its own
  number of rows.
\<close>

lemma init_mcmc_defaults_never_pass:
  assumes "a_algorithm a = None" and "a_pdf_target_type a = None"
  shows "\<exists>e. init_mcmc fk a = Inl e"
proof (cases "init_mcmc fk a")
  case (Inl e)
  then show ?thesis by simp
next
  case (Inr c)
  then obtain ttype where
    "check_pdf_target_type (a_algorithm a) (a_pdf_target_type a) = Inr ttype"
    by (rule init_mcmcE)
  with assms show ?thesis by (simp add: check_pdf_target_type_def)
qed

lemma check_seed_stretch_omitted:
  "check_seed (Some ''Stretch'') d None =
     (if d < 3 then Inl NotImplementedError else Inr (Arr1 (replicate d 0)))"
  by (simp add: check_seed_def)

lemma check_seed_stretch_supplied:
  "check_seed (Some ''Stretch'') d (Some s) =
     (if len s < 3 then Inl NotImplementedError else Inr s)"
  by (simp add: check_seed_def)

text \<open>
  Claim C5. With the algorithm and the target type omitted the validation does not reach
  the default \<^verbatim>\<open>'MMH'\<close>: the target type is checked first, against the algorithm as given
  (\<open>None\<close>), stays \<open>None\<close> and is rejected with ValueError, for every number of samples and
  whatever the target returns.
\<close>

theorem init_mcmc_defaults_raise:
  "init_mcmc fk (only_nsamples n) = Inl ValueError"
  by (simp add: init_mcmc_def only_nsamples_def check_seed_def check_pdf_proposal_type_def
      check_pdf_proposal_scale_def check_pdf_target_type_def)

text \<open>
  Claim C6. For Stretch with the seed omitted the validation puts the zero vector of length
  \<open>dimension\<close> in its place and tests that vector's length against 3: with dimension 3 the
  omitted seed passes, and the validation returns the configuration with the zero vector as
  the seed.
\<close>

theorem init_mcmc_stretch_omitted_seed_passes:
  "\<exists>c. init_mcmc fk ((only_nsamples 6) \<lparr> a_dimension := Some 3, a_algorithm := Some ''Stretch'' \<rparr>)
         = Inr c \<and> seed c = Arr1 [0, 0, 0] \<and> algorithm c = ''Stretch''"
  by (simp add: init_mcmc_def only_nsamples_def check_seed_def check_pdf_proposal_type_def
      check_pdf_proposal_scale_def check_pdf_target_type_def check_algorithm_def
      numeral_3_eq_3)
subsection \<open>MCMC: burn-in and the uniform proposal of MH\<close>

text \<open>
  A transition of MH or MMH that returns has written row \<open>i + 1\<close> of the buffer, so the
  loop can only come through \<open>m\<close> transitions when \<open>m\<close> is below the number of rows. With
  burn-in the loop bound exceeds that number: no such run returns. Without burn-in a run
  that returns gives \<open>nsamples\<close> rows.
\<close>

lemma for_loop_last:
  assumes "for_loop [0..<Suc m] body s = Inr t"
  obtains u where "for_loop [0..<m] body s = Inr u" and "body m u = Inr t"
proof -
  have "and_then (for_loop [0..<m] body s) (body m) = Inr t"
    using assms for_loop_upt_Suc [of 0 m body s] by simp
  then show thesis
    using that by (auto simp: and_then_Inr_iff)
qed

lemma mh_steps_fit:
  assumes "mh_steps c r m = Inr st"
  shows "m < raw_steps c"
proof (cases m)
  case 0
  with assms show ?thesis
    by (auto simp: mh_steps_def and_then_Inr_iff getitem_Inr_iff zeros_def)
next
  case (Suc k)
  with assms obtain z s0 f where
    z: "getitem (zeros (raw_steps c) (dimension c)) 0 = Inr z"
    and s0: "broadcast_row (dimension c) (seed c) = Inr s0"
    and f: "getitem (pdf_target c) 0 = Inr f"
    and loop: "for_loop [0..<Suc k] (mh_step c f r)
                 (start ((zeros (raw_steps c) (dimension c))[0 := s0])) = Inr st"
    unfolding mh_steps_def and_then_Inr_iff by blast
  from loop obtain u where
    u: "for_loop [0..<k] (mh_step c f r)
          (start ((zeros (raw_steps c) (dimension c))[0 := s0])) = Inr u"
    and last: "mh_step c f r k u = Inr st"
    by (rule for_loop_last)
  have "mh_steps c r k = Inr u"
    using z s0 f u by (simp add: mh_steps_def and_then_def)
  then obtain s1 where "mh_inv (raw_steps c) s1 k u"
    by (rule mh_steps_inv)
  then have "length (samples u) = raw_steps c" by (simp add: mh_inv_def)
  moreover from last have "Suc k < length (samples u)"
    by (auto simp: mh_step_def and_then_Inr_iff getitem_Inr_iff setitem_Inr_iff
        split: option.splits)
  ultimately show ?thesis using Suc by simp
qed

lemma mmh_marginal_first:
  assumes "for_loop [0..<d] (mmh_marginal_step c r i) u = Inr v" and "0 < d"
  shows "Suc i < length (samples u)"
proof -
  from assms(2) have "[0..<d] = 0 # [1..<d]" by (simp add: upt_conv_Cons)
  with assms(1) have "and_then (mmh_marginal_step c r i 0 u)
      (for_loop [1..<d] (mmh_marginal_step c r i)) = Inr v"
    by simp
  then obtain w where "mmh_marginal_step c r i 0 u = Inr w"
    unfolding and_then_Inr_iff by blast
  then show ?thesis
    by (auto simp: mmh_marginal_step_def and_then_Inr_iff getitem_Inr_iff setitem_Inr_iff
        getitem2_def setitem2_def split: option.splits)
qed

lemma mmh_joint_outer_fit:
  assumes "mmh_joint_outer c f r i u = Inr v"
  shows "Suc i < length (samples u)"
proof -
  define x where "x = samples u ! i"
  define u0 where "u0 = u \<lparr> candidate := Some x, current := x \<rparr>"
  from assms obtain w where
    loop: "for_loop [0..<dimension c] (mmh_joint_step c f r i) u0 = Inr w"
    and i: "Suc i < length (samples w)"
    by (auto simp: mmh_joint_outer_def and_then_Inr_iff getitem_Inr_iff setitem_Inr_iff
        x_def u0_def)
  have "joint_inv x u0 0 u0" by (simp add: joint_inv_def u0_def)
  then have "joint_inv x u0 (dimension c) w"
    using for_loop_invariant [where P = "joint_inv x u0", OF _ loop] mmh_joint_step_inv
    by blast
  then have "samples w = samples u" by (simp add: joint_inv_def u0_def)
  with i show ?thesis by simp
qed

lemma mmh_steps_fit:
  assumes "mmh_steps c r m = Inr st"
    and "pdf_target_type c = Some ''marginal_pdf'' \<or> pdf_target_type c = Some ''joint_pdf''"
    and "0 < dimension c"
  shows "m < raw_steps c"
proof (cases m)
  case 0
  with assms(1) show ?thesis
    by (auto simp: mmh_steps_def and_then_Inr_iff getitem_Inr_iff zeros_def)
next
  case (Suc k)
  define st0 where "st0 s = start ((zeros (raw_steps c) (dimension c))[0 := s])" for s
  from assms(1) Suc obtain z s0 where
    z: "getitem (zeros (raw_steps c) (dimension c)) 0 = Inr z"
    and s0: "broadcast_row (dimension c) (seed c) = Inr s0"
    and rest: "(if pdf_target_type c = Some ''marginal_pdf'' then
         for_loop [0..<Suc k]
           (\<lambda>i. for_loop [0..<dimension c] (mmh_marginal_step c r i)) (st0 s0)
       else if pdf_target_type c = Some ''joint_pdf'' then
         and_then (getitem (pdf_target c) 0) (\<lambda>pdf_fn.
           for_loop [0..<Suc k] (mmh_joint_outer c pdf_fn r) (st0 s0))
       else Inr (st0 s0)) = Inr st"
    unfolding mmh_steps_def and_then_Inr_iff Let_def st0_def by blast
  show ?thesis
  proof (cases "pdf_target_type c = Some ''marginal_pdf''")
    case True
    with rest have "for_loop [0..<Suc k]
           (\<lambda>i. for_loop [0..<dimension c] (mmh_marginal_step c r i)) (st0 s0) = Inr st"
      by simp
    then obtain u where
      u: "for_loop [0..<k]
           (\<lambda>i. for_loop [0..<dimension c] (mmh_marginal_step c r i)) (st0 s0) = Inr u"
      and last: "for_loop [0..<dimension c] (mmh_marginal_step c r k) u = Inr st"
      by (rule for_loop_last)
    have "mmh_steps c r k = Inr u"
      using z s0 u True by (simp add: mmh_steps_def and_then_def st0_def)
    then obtain s1 where "mmh_inv (raw_steps c) (dimension c) s1 k u"
      using assms(2) by (rule mmh_steps_inv)
    then have "length (samples u) = raw_steps c" by (simp add: mmh_inv_def)
    with mmh_marginal_first [OF last assms(3)] Suc show ?thesis by simp
  next
    case False
    with assms(2) have jt: "pdf_target_type c = Some ''joint_pdf''" by simp
    with rest have "and_then (getitem (pdf_target c) 0) (\<lambda>pdf_fn.
           for_loop [0..<Suc k] (mmh_joint_outer c pdf_fn r) (st0 s0)) = Inr st"
      by simp
    then obtain f where
      f: "getitem (pdf_target c) 0 = Inr f"
      and loopf: "for_loop [0..<Suc k] (mmh_joint_outer c f r) (st0 s0) = Inr st"
      unfolding and_then_Inr_iff by blast
    from loopf obtain u where
      u: "for_loop [0..<k] (mmh_joint_outer c f r) (st0 s0) = Inr u"
      and last: "mmh_joint_outer c f r k u = Inr st"
      by (rule for_loop_last)
    have "mmh_steps c r k = Inr u"
      using z s0 f u jt by (simp add: mmh_steps_def and_then_def st0_def)
    then obtain s1 where "mmh_inv (raw_steps c) (dimension c) s1 k u"
      using assms(2) by (rule mmh_steps_inv)
    then have "length (samples u) = raw_steps c" by (simp add: mmh_inv_def)
    with mmh_joint_outer_fit [OF last] Suc show ?thesis by simp
  qed
qed

lemma transitions_fit_buffer:
  assumes "init_mcmc fk a = Inr c" and "algorithm c = ''MH'' \<or> algorithm c = ''MMH''"
    and "0 < dimension c" and "chain_after c r m = Inr st"
  shows "m < raw_steps c"
proof (cases "algorithm c = ''MH''")
  case True
  with assms(4) show ?thesis by (simp add: chain_after_def mh_steps_fit)
next
  case False
  with assms(2,4) have "mmh_steps c r m = Inr st" by (auto simp: chain_after_def)
  then show ?thesis
    using init_mcmc_target_type [OF assms(1)] assms(3) by (rule mmh_steps_fit)
qed

lemma burn_in_never_returns:
  assumes "init_mcmc fk a = Inr c" and "algorithm c = ''MH'' \<or> algorithm c = ''MMH''"
    and "0 < dimension c" and "0 < nburn c"
  shows "\<exists>e. run_mcmc c r = Inl e"
proof (cases "run_chain c r")
  case (Inl e)
  then show ?thesis by (simp add: run_mcmc_def and_then_def)
next
  case (Inr st)
  then have "chain_after c r (transitions c) = Inr st"
    using assms(2) by (auto simp: run_chain_bound loop_bound_def)
  from transitions_fit_buffer [OF assms(1,2,3) this]
  have "transitions c < raw_steps c" .
  moreover have "N \<le> nat (int N - 1 + int b)" if "0 < b" for N b :: nat
    using that by arith
  from this [OF assms(4)] have "raw_steps c \<le> transitions c"
    unfolding transitions_def raw_steps_def .
  ultimately show ?thesis by simp
qed

lemma filter_multiples_block:
  assumes "0 < (j::nat)"
  shows "filter (\<lambda>k. k mod j = 0) [n * j..<n * j + j] = [n * j]"
proof -
  have "[n * j..<n * j + j] = n * j # [Suc (n * j)..<n * j + j]"
    using assms by (simp add: upt_conv_Cons)
  moreover have "filter (\<lambda>k. k mod j = 0) [Suc (n * j)..<n * j + j] = []"
  proof -
    have "k mod j \<noteq> 0" if "Suc (n * j) \<le> k" "k < n * j + j" for k
    proof -
      define i where "i = k - n * j"
      from that have "k = n * j + i" and "0 < i" and "i < j"
        by (simp_all add: i_def)
      then show ?thesis by simp
    qed
    then show ?thesis by (auto simp: filter_empty_conv)
  qed
  ultimately show ?thesis by simp
qed

lemma length_filter_multiples:
  assumes "0 < (j::nat)"
  shows "length (filter (\<lambda>k. k mod j = 0) [0..<n * j]) = n"
proof (induction n)
  case 0
  show ?case by simp
next
  case (Suc n)
  have e: "Suc n * j = n * j + j" by simp
  have "[0..<n * j + j] = [0..<n * j] @ [n * j..<n * j + j]"
    by (rule upt_add_eq_append) simp
  then show ?case
    unfolding e using Suc filter_multiples_block [OF assms, of n] by simp
qed

lemma run_mcmc_rows_without_burn_in:
  assumes "init_mcmc fk a = Inr c" and "algorithm c = ''MH'' \<or> algorithm c = ''MMH''"
    and "nburn c = 0" and "run_mcmc c r = Inr out"
  shows "length out = nsamples c"
proof -
  from assms(4) obtain st where st: "run_chain c r = Inr st"
    and out: "py_slice (samples st) (nburn c) (raw_steps c + nburn c) (jump c) = Inr out"
    using assms(2) by (auto simp: run_mcmc_def and_then_Inr_iff)
  have len: "length (samples st) = raw_steps c"
  proof (cases "algorithm c = ''MH''")
    case True
    with st have "mh_steps c r (transitions c) = Inr st"
      by (simp add: run_chain_def mh_chain_def)
    then obtain s0 where "mh_inv (raw_steps c) s0 (transitions c) st"
      by (rule mh_steps_inv)
    then show ?thesis by (simp add: mh_inv_def)
  next
    case False
    with st assms(2) have "mmh_steps c r (transitions c) = Inr st"
      by (auto simp: run_chain_def mmh_chain_def)
    then obtain s0 where "mmh_inv (raw_steps c) (dimension c) s0 (transitions c) st"
      using init_mcmc_target_type [OF assms(1)] by (rule mmh_steps_inv)
    then show ?thesis by (simp add: mmh_inv_def)
  qed
  from out have j: "0 < jump c" and
    "out = map (\<lambda>k. samples st ! k)
             (filter (\<lambda>k. (k - nburn c) mod jump c = 0)
                [nburn c..<min (raw_steps c + nburn c) (length (samples st))])"
    by (auto simp: py_slice_def split: if_splits)
  then have "length out = length (filter (\<lambda>k. k mod jump c = 0) [0..<nsamples c * jump c])"
    using len assms(3) by (simp add: raw_steps_def)
  then show ?thesis by (simp add: length_filter_multiples [OF j])
qed

text \<open>
  Claim C1. The buffer has \<open>nsamples * jump\<close> rows while the loop makes
  \<open>nsamples * jump - 1 + nburn\<close> transitions, each writing row \<open>i + 1\<close>: with
  \<^verbatim>\<open>nsamples=1, jump=1, nburn=1\<close> the only transition writes row 1 of a buffer of one row,
  and the call raises IndexError instead of returning one row, whatever the draws.
\<close>

theorem run_mcmc_burn_in_raises:
  "MCMC fk (mh_args ''Normal'' 1 1) r = Inl IndexError"
  by (simp add: mh_args_def init_defs base_defs MCMC_def run_mcmc_def run_chain_def mh_chain_def mh_steps_def
      mh_step_def mh_proposal_def norm_pdf_def)

text \<open>
  Validation always stores the proposal type as a list, which the MH loop compares with the
  string \<^verbatim>\<open>'Uniform'\<close>: an MH run whose proposal is uniform never returns.
\<close>

lemma check_pdf_proposal_type_list:
  "check_pdf_proposal_type alg d t = Inr p \<Longrightarrow> \<exists>names. p = PyList names"
  by (auto simp: check_pdf_proposal_type_def Let_def split: if_splits)

lemma init_mcmc_proposal_list:
  assumes "init_mcmc fk a = Inr c"
  obtains names where "pdf_proposal_type c = PyList names"
proof -
  from assms obtain ptype where
    "check_pdf_proposal_type (a_algorithm a) (dimension c) (a_pdf_proposal_type a) = Inr ptype"
    and "pdf_proposal_type c = ptype"
    by (rule init_mcmcE)
  then show thesis
    using that check_pdf_proposal_type_list by blast
qed

lemma mh_step_uniform_raises:
  assumes "pdf_proposal_type c = PyList (''Uniform'' # names)" and "candidate st = None"
  shows "mh_step c f r i st \<noteq> Inr st'"
  using assms
  by (auto simp: mh_step_def mh_proposal_def and_then_Inr_iff getitem_Inr_iff)

lemma mh_uniform_never_returns:
  assumes "init_mcmc fk a = Inr c" and "algorithm c = ''MH''"
    and "names_getitem (pdf_proposal_type c) 0 = Inr ''Uniform''"
    and "0 < transitions c"
  shows "\<exists>e. run_mcmc c r = Inl e"
proof (cases "run_chain c r")
  case (Inl e)
  then show ?thesis by (simp add: run_mcmc_def and_then_def)
next
  case (Inr st)
  from assms(1) obtain names where "pdf_proposal_type c = PyList names"
    by (rule init_mcmc_proposal_list)
  with assms(3) obtain rest where pt: "pdf_proposal_type c = PyList (''Uniform'' # rest)"
    by (cases names) (auto simp: getitem_def)
  from assms(4) have up: "[0..<transitions c] = 0 # [1..<transitions c]"
    by (simp add: upt_conv_Cons)
  from Inr assms(2) have "mh_steps c r (transitions c) = Inr st"
    by (simp add: run_chain_def mh_chain_def)
  then obtain s0 f where
    "for_loop [0..<transitions c] (mh_step c f r)
       (start ((zeros (raw_steps c) (dimension c))[0 := s0])) = Inr st"
    unfolding mh_steps_def and_then_Inr_iff by blast
  then have "and_then (mh_step c f r 0 (start ((zeros (raw_steps c) (dimension c))[0 := s0])))
      (for_loop [1..<transitions c] (mh_step c f r)) = Inr st"
    unfolding up by simp
  then obtain u where "mh_step c f r 0 (start ((zeros (raw_steps c) (dimension c))[0 := s0])) = Inr u"
    unfolding and_then_Inr_iff by blast
  moreover have "candidate (start ((zeros (raw_steps c) (dimension c))[0 := s0])) = None"
    by (simp add: start_def)
  ultimately show ?thesis
    using mh_step_uniform_raises [OF pt] by blast
qed

text \<open>
  Claim C4. In MH the test for the uniform proposal compares the list
  \<^verbatim>\<open>self.pdf_proposal_type\<close> with the string \<^verbatim>\<open>'Uniform'\<close> and never holds, so the
  first transition reads \<^verbatim>\<open>candidate\<close> unbound: the call with the proposal type
  \<^verbatim>\<open>'Uniform'\<close> and two samples raises UnboundLocalError, whatever the draws, and no
  candidate is drawn.
\<close>

theorem run_mcmc_mh_uniform_raises:
  "MCMC fk (mh_args ''Uniform'' 2 0) r = Inl UnboundLocalError"
  by (simp add: mh_args_def init_defs base_defs MCMC_def run_mcmc_def run_chain_def mh_chain_def mh_steps_def
      mh_step_def mh_proposal_def)

subsection \<open>MCMC: the transitions of Stretch\<close>

lemma stretch_rule_cong:
  assumes "stretch_rule c r st k"
    and "1 \<le> ensemble_size c" and "ensemble_size c - 1 \<le> k"
    and "\<And>m. m \<le> k + 1 \<Longrightarrow> samples st' ! m = samples st ! m"
    and "trace st' ! (k + 1 - ensemble_size c) = trace st ! (k + 1 - ensemble_size c)"
  shows "stretch_rule c r st' k"
proof -
  have p: "pick r k < ensemble_size c - 1"
    using assms(1) by (simp add: stretch_rule_def Let_def)
  have "k + 2 - ensemble_size c + pick r k \<le> k + 1" "k + 1 - ensemble_size c \<le> k + 1"
    using p assms(2,3) by linarith+
  then have "samples st' ! (k + 2 - ensemble_size c + pick r k)
               = samples st ! (k + 2 - ensemble_size c + pick r k)"
    and "samples st' ! (k + 1 - ensemble_size c) = samples st ! (k + 1 - ensemble_size c)"
    and "samples st' ! (k + 1) = samples st ! (k + 1)"
    using assms(4) by simp_all
  with assms(1,5) show ?thesis
    by (simp add: stretch_rule_def Let_def)
qed

lemma stretch_step_inv:
  assumes inv: "stretch_inv c r N i st"
    and step: "stretch_step c (ensemble_size c) (pdf_target c ! 0) r i st = Inr st'"
    and K: "1 \<le> ensemble_size c" and i: "ensemble_size c - 1 \<le> i"
  shows "stretch_inv c r N (Suc i) st'"
proof -
  define K where "K = ensemble_size c"
  define a where "a = pdf_proposal_scale c ! 0"
  define z where "z = (1 + (a - 1) * stretch01 r i)\<^sup>2 / a"
  define x where "x = samples st ! (i + 1 - K)"
  define comp where "comp = drop (i + 2 - K) (take (i + 1) (samples st))"
  define S where "S = comp ! pick r i"
  define cand where "cand = map2 (\<lambda>Sj xj. Sj + z * (xj - Sj)) S x"
  from step obtain acc where
    pk: "pick r i < length comp" and a0: "a \<noteq> 0"
    and acc: "accept_test (floats c) (random01 r i 0)
           (power_int z (int (dimension c) - 1) * (pdf_target c ! 0) cand (pdf_target_params c))
           ((pdf_target c ! 0) x (pdf_target_params c)) = Inr acc"
    and wr: "Suc i < length (samples st)"
    and st': "st' = st \<lparr> samples := (samples st)[Suc i := (if acc then cand else x)],
                 candidate := Some cand, trace := trace st @ [(cand, acc)] \<rparr>"
    unfolding stretch_step_def Let_def and_then_Inr_iff random_choice_def getitem_Inr_iff
      setitem_Inr_iff stretch_factor_def
    by (auto simp: K_def a_def z_def x_def comp_def S_def cand_def split: if_splits)
  have lc: "length comp = K - 1"
    using wr K i by (simp add: comp_def K_def min_def)
  have Sx: "S = samples st ! (i + 2 - K + pick r i)"
    using pk lc K i wr by (simp add: S_def comp_def K_def)
  have tl: "length (trace st) = i + 1 - K"
    using inv by (simp add: stretch_inv_def K_def)
  have below: "i + 2 - K + pick r i \<le> i" "i + 1 - K \<le> i"
    using pk lc K i by (simp_all add: K_def)
  have new: "stretch_rule c r st' i"
    unfolding stretch_rule_def Let_def
    using pk lc a0 acc wr tl below
    by (simp add: st' nth_append K_def a_def z_def x_def cand_def Sx)
  have old: "stretch_rule c r st' k" if "ensemble_size c - 1 \<le> k" "k < i" for k
  proof (rule stretch_rule_cong [OF _ K that(1)])
    show "stretch_rule c r st k" using inv that by (simp add: stretch_inv_def)
    show "samples st' ! m = samples st ! m" if "m \<le> k + 1" for m
      using that \<open>k < i\<close> by (simp add: st')
    have "k + 1 - ensemble_size c < length (trace st)"
      using that tl K by (simp add: K_def)
    then show "trace st' ! (k + 1 - ensemble_size c) = trace st ! (k + 1 - ensemble_size c)"
      by (simp add: st' nth_append)
  qed
  have "stretch_rule c r st' k" if "ensemble_size c - 1 \<le> k" "k < Suc i" for k
    using that old new by (cases "k = i") auto
  moreover have "length (samples st') = N" "length (trace st') = Suc i + 1 - ensemble_size c"
    using inv tl K i by (simp_all add: st' stretch_inv_def K_def)
  ultimately show ?thesis
    by (simp add: stretch_inv_def)
qed

lemma assign_seed_length:
  assumes "assign_seed a K d sd = Inr a'"
  shows "length a' = length a"
proof (cases sd)
  case (Arr1 xs)
  with assms obtain row where "a' = replicate (min K (length a)) row @ drop (min K (length a)) a"
    by (auto simp: assign_seed_def Let_def and_then_Inr_iff)
  then show ?thesis by simp
next
  case (Arr2 rows)
  with assms obtain rows' where
    "(if length rows' = min K (length a) then Inr (rows' @ drop (min K (length a)) a)
      else if length rows' = 1
        then Inr (replicate (min K (length a)) (hd rows') @ drop (min K (length a)) a)
        else Inl ValueError) = Inr a'"
    by (auto simp: assign_seed_def Let_def and_then_Inr_iff)
  then have "length a' = min K (length a) + (length a - min K (length a))"
    by (cases "length rows' = min K (length a)") (auto split: if_splits)
  then show ?thesis by simp
qed

lemma stretch_steps_inv:
  assumes "stretch_steps c r b = Inr st"
    and "1 \<le> ensemble_size c" and "ensemble_size c - 1 \<le> b"
  shows "stretch_inv c r (raw_steps c) b st"
proof -
  from assms(1) obtain a where
    a: "assign_seed (zeros (raw_steps c) (dimension c)) (ensemble_size c)
          (dimension c) (seed c) = Inr a"
    and loop: "for_loop [ensemble_size c - 1 ..< b]
         (stretch_step c (ensemble_size c) (pdf_target c ! 0) r) (start a) = Inr st"
    unfolding stretch_steps_def and_then_Inr_iff getitem_Inr_iff by blast
  have "length a = raw_steps c"
    using assign_seed_length [OF a] by (simp add: zeros_def)
  then have init: "stretch_inv c r (raw_steps c) (ensemble_size c - 1) (start a)"
    using assms(2) by (auto simp: stretch_inv_def start_def)
  show ?thesis
    using for_loop_invariant [where P = "stretch_inv c r (raw_steps c)", OF assms(3) loop init]
      stretch_step_inv assms(2) by blast
qed

lemma init_mcmc_ensemble:
  assumes "init_mcmc fk a = Inr c" and "algorithm c = ''Stretch''"
  shows "3 \<le> ensemble_size c"
proof -
  from assms(1) obtain sd alg where
    sd: "check_seed (a_algorithm a) (dimension c) (a_seed a) = Inr sd" "seed c = sd"
    and alg: "check_algorithm (a_algorithm a) = Inr alg" "algorithm c = alg"
    by (rule init_mcmcE)
  from alg assms(2) have "a_algorithm a = Some ''Stretch''"
    by (auto simp: check_algorithm_def split: option.splits if_splits)
  with sd show ?thesis
    by (auto simp: check_seed_def ensemble_size_def Let_def split: if_splits)
qed

text \<open>
  Claim C3. Let validation return the configuration \<open>c\<close> with the algorithm Stretch, let
  the loop pass the steps below \<open>b\<close> without raising, leaving the state \<open>st\<close> (\<open>b\<close> is the
  bound \<open>total_steps - 1\<close> of the loop for a run that returns), and let \<open>K - 1 \<le> i < b\<close> for
  the ensemble size \<open>K\<close>, the number of rows of the seed. Then at step \<open>i\<close> the companion
  \<open>S\<close> is row \<open>m\<close> of the buffer for the index \<^verbatim>\<open>random.choice\<close> drew below \<open>K - 1\<close>, one
  of the \<open>K - 1\<close> rows \<open>i + 2 - K, \<dots>, i\<close> before the row being written and not the row
  \<open>i + 1 - K\<close> being updated; the stretch factor is \<open>z = (1 + (a - 1) U)\<^sup>2 / a\<close> for the
  scale \<open>a\<close> and the draw \<open>U\<close>; the candidate is \<open>S + z (x_current - S)\<close> for the row
  \<open>x_current\<close> that is \<open>K\<close> rows behind the row being written; the step accepts when the
  draw of \<^verbatim>\<open>np.random.random()\<close> is below \<open>z ^ (d - 1) * \<pi> candidate / \<pi> x_current\<close>,
  which for a uniform draw has probability the minimum of 1 and that ratio; and the row
  written is the candidate on acceptance and \<open>x_current\<close> on rejection.
\<close>

theorem stretch_transition:
  assumes "init_mcmc fk a = Inr c" and "algorithm c = ''Stretch''"
    and "b \<le> raw_steps c - 1" and "chain_after c r b = Inr st"
    and "ensemble_size c - 1 \<le> i" and "i < b"
  shows
    "(let K = ensemble_size c;
          x_current = samples st ! (i + 1 - K);
          a = pdf_proposal_scale c ! 0;
          z = (1 + (a - 1) * stretch01 r i)\<^sup>2 / a;
          m = i + 2 - K + pick r i;
          S = samples st ! m;
          cand = map2 (\<lambda>Sj xj. Sj + z * (xj - Sj)) S x_current;
          \<pi> = (\<lambda>x. (pdf_target c ! 0) x (pdf_target_params c));
          accept = snd (trace st ! (i + 1 - K))
      in K = len (seed c) \<and> 3 \<le> K \<and>
         pick r i < K - 1 \<and> i + 2 - K \<le> m \<and> m \<le> i \<and> m \<noteq> i + 1 - K \<and>
         a \<noteq> 0 \<and>
         fst (trace st ! (i + 1 - K)) = cand \<and>
         accept_test (floats c) (random01 r i 0)
           (power_int z (int (dimension c) - 1) * \<pi> cand) (\<pi> x_current) = Inr accept \<and>
         (\<pi> x_current \<noteq> 0 \<longrightarrow>
            accept = (random01 r i 0 < power_int z (int (dimension c) - 1) * \<pi> cand / \<pi> x_current)) \<and>
         samples st ! (i + 1) = (if accept then cand else x_current))"
proof -
  have K: "3 \<le> ensemble_size c"
    using init_mcmc_ensemble [OF assms(1,2)] .
  from assms(2,4) have "stretch_steps c r b = Inr st"
    by (simp add: chain_after_def)
  then have "stretch_inv c r (raw_steps c) b st"
    using K assms(5,6) by (intro stretch_steps_inv) simp_all
  then have rule: "stretch_rule c r st i"
    using assms(5,6) by (simp add: stretch_inv_def)
  then have p: "pick r i < ensemble_size c - 1"
    by (simp add: stretch_rule_def Let_def)
  have idx: "i + 2 - ensemble_size c \<le> i + 2 - ensemble_size c + pick r i"
      "i + 2 - ensemble_size c + pick r i \<le> i"
      "i + 2 - ensemble_size c + pick r i \<noteq> i + 1 - ensemble_size c"
    using p K assms(5) by simp_all
  show ?thesis
    using rule K idx
    by (auto simp: stretch_rule_def Let_def ensemble_size_def accept_test_def split: if_splits)
qed

text \<open>
  The theorem at the Stretch example, an ensemble of three points on the line: the only
  transition is step 2, with the companion row 2, the factor 9/8 and the point row 0.
\<close>

lemma stretch_args_valid: "init_mcmc PyFloat stretch_args = Inr stretch_config"
  by (simp add: stretch_args_def stretch_config_def init_defs)

lemma stretch_config_chain:
  "chain_after stretch_config fixed_draws 3 =
     Inr \<lparr> samples = [[0], [1], [2], [- (1 / 4)]], candidate = Some [- (1 / 4)], current = [],
           trace = [([- (1 / 4)], True)] \<rparr>"
  by (simp add: chain_after_def stretch_steps_def stretch_config_def fixed_draws_def base_defs
      stretch_step_def assign_seed_def fit_rows_def ensemble_size_def random_choice_def
      stretch_factor_def step_target_def numeral_3_eq_3 power2_eq_square Let_def
      eval_nat_numeral)

theorem stretch_transition_witness:
  "\<exists>st. init_mcmc PyFloat stretch_args = Inr stretch_config \<and>
        algorithm stretch_config = ''Stretch'' \<and>
        3 \<le> raw_steps stretch_config - 1 \<and>
        chain_after stretch_config fixed_draws 3 = Inr st \<and>
        ensemble_size stretch_config - 1 \<le> 2 \<and>
        samples st = [[0], [1], [2], [- (1 / 4)]] \<and>
        snd (trace st ! 0) \<and>
        samples st ! 3 = map2 (\<lambda>Sj xj. Sj + 9 / 8 * (xj - Sj)) (samples st ! 2) (samples st ! 0)"
proof -
  define st where "st = \<lparr> samples = [[0], [1], [2], [- (1 / 4 :: real)]],
           candidate = Some [- (1 / 4 :: real)], current = [],
           trace = [([- (1 / 4 :: real)], True)] \<rparr>"
  have run: "chain_after stretch_config fixed_draws 3 = Inr st"
    unfolding st_def by (rule stretch_config_chain)
  have alg: "algorithm stretch_config = ''Stretch''"
    by (simp add: stretch_config_def)
  have lo: "ensemble_size stretch_config - 1 \<le> 2" and hi: "(2::nat) < 3"
    and b: "3 \<le> raw_steps stretch_config - 1"
    by (simp_all add: ensemble_size_def raw_steps_def stretch_config_def)
  have vals: "ensemble_size stretch_config = 3" "pdf_proposal_scale stretch_config ! 0 = 2"
      "stretch01 fixed_draws 2 = 1 / 2" "pick fixed_draws 2 = 1"
    by (simp_all add: ensemble_size_def stretch_config_def fixed_draws_def)
  from stretch_transition [OF stretch_args_valid alg b run lo hi]
  have "snd (trace st ! 0) \<and>
        samples st ! 3 = map2 (\<lambda>Sj xj. Sj + 9 / 8 * (xj - Sj)) (samples st ! 2) (samples st ! 0)"
    by (simp add: Let_def vals st_def power2_eq_square)
  with stretch_args_valid alg run lo b show ?thesis
    by (intro exI [of _ st]) (simp add: st_def)
qed


end
